theory Spec2Isabelle
  imports Main "HOL-Library.Word" "HOL-Library.Sublist"
begin

section \<open>Rendering integers as program text\<close>

text \<open>
  The kernel synthesizer writes integers into the generated source through the stream
  operator \<^verbatim>\<open>s << n\<close> of the C++ standard library, which renders an \<^verbatim>\<open>int\<close> in
  decimal, with a leading minus sign for a negative value.
\<close>

definition digitChar :: "nat \<Rightarrow> char" where
  "digitChar d = ''0123456789'' ! d"

function showNat :: "nat \<Rightarrow> string" where
  "showNat n = (if n < 10 then [digitChar n] else showNat (n div 10) @ [digitChar (n mod 10)])"
  by pat_completeness auto
termination
  by (relation "measure (\<lambda>n. n)") auto

declare showNat.simps [simp del]

definition showInt :: "int \<Rightarrow> string" where
  "showInt i = (if i < 0 then ''-'' @ showNat (nat (- i)) else showNat (nat i))"

text \<open>
  Modelled from the spec: \<^verbatim>\<open>CudaContext::intToString\<close> is a member of the context
  class, whose source is not part of the files at hand. The spec describes it as the
  collaborator's ``helper to render an integer as program-text (used for generated
  symbolic names and type-width suffixes)'', and the name returned by \<^verbatim>\<open>addArgument\<close> as
  \<^verbatim>\<open>customArg<N>\<close> with N the count after insertion; it is modelled as the decimal
  rendering.
\<close>

definition intToString :: "int \<Rightarrow> string" where
  "intToString i = showInt i"

text \<open>Reading a decimal numeral back, used to state that \<open>showNat\<close> is the decimal rendering.\<close>

definition digitVal :: "char \<Rightarrow> nat" where
  "digitVal c = of_char c - 48"

definition readNat :: "string \<Rightarrow> nat" where
  "readNat cs = foldl (\<lambda>acc c. 10 * acc + digitVal c) 0 cs"

section \<open>Data model of \<^verbatim>\<open>CudaBondedUtilities\<close>\<close>

text \<open>
  Sizes and loop counters (\<^verbatim>\<open>int\<close> in the source) are natural numbers here: every one of
  them is a container size or runs from 0 up to one, and the model is about containers
  whose sizes fit an \<^verbatim>\<open>int\<close>. Atom indices are \<^verbatim>\<open>int\<close> values in the bond records and are
  converted to \<^verbatim>\<open>unsigned int\<close> (a 32-bit word) when they are stored in an index vector.

  A cell of an index vector is \<open>Some v\<close> for a definite value. The packer reads
  \<^verbatim>\<open>forceAtoms[i][bond][startAtom+atom]\<close> with \<^verbatim>\<open>operator[]\<close>, which checks nothing; a
  read past the end of the tuple has no defined value in C++, and the cell that receives
  it is \<open>None\<close>: whatever lies behind the tuple.
\<close>

type_synonym cell = "32 word option"

type_synonym CUdeviceptr = nat
type_synonym CUmodule = nat
type_synonym CUfunction = nat

text \<open>
  \<^verbatim>\<open>CudaArray\<close> is declared outside the files at hand. The model keeps what this class uses
  of it: the number of elements and the name given to \<^verbatim>\<open>create\<close>, the element size that
  \<^verbatim>\<open>getElementSize\<close> returns, and the uploaded contents. The element size recorded by
  \<^verbatim>\<open>CudaArray::create<unsigned int>\<close> is a parameter of the model (\<open>elemSize\<close> below).
\<close>

record CudaArray =
  arraySize :: nat
  elementSize :: nat
  arrayName :: string
  contents :: "cell list"

definition CudaArray_create :: "nat \<Rightarrow> nat \<Rightarrow> string \<Rightarrow> CudaArray" where
  "CudaArray_create elemSize n name =
     \<lparr>arraySize = n, elementSize = elemSize, arrayName = name, contents = []\<rparr>"

definition upload :: "CudaArray \<Rightarrow> cell list \<Rightarrow> CudaArray" where
  "upload a v = a\<lparr>contents := v\<rparr>"

definition getElementSize :: "CudaArray \<Rightarrow> nat" where
  "getElementSize a = elementSize a"

record CudaBondedUtilities =
  forceAtoms :: "int list list list"
  forceSource :: "string list"
  forceGroup :: "int list"
  arguments :: "CUdeviceptr list"
  argTypes :: "string list"
  prefixCode :: "string list"
  atomIndices :: "CudaArray list list"
  kernel :: "CUfunction option"
  numForceBuffers :: nat
  maxBonds :: nat
  hasInitializedKernels :: bool

text \<open>The constructor; the kernel handle is not set before \<^verbatim>\<open>initialize\<close>.\<close>

definition newCudaBondedUtilities :: CudaBondedUtilities where
  "newCudaBondedUtilities =
     \<lparr>forceAtoms = [], forceSource = [], forceGroup = [], arguments = [], argTypes = [],
      prefixCode = [], atomIndices = [], kernel = None, numForceBuffers = 0, maxBonds = 0,
      hasInitializedKernels = False\<rparr>"

section \<open>Registration\<close>

definition addInteraction ::
  "int list list \<Rightarrow> string \<Rightarrow> int \<Rightarrow> CudaBondedUtilities \<Rightarrow> CudaBondedUtilities" where
  "addInteraction atoms source grp s =
     (if length atoms > 0
      then s\<lparr>forceAtoms := forceAtoms s @ [atoms],
             forceSource := forceSource s @ [source],
             forceGroup := forceGroup s @ [grp]\<rparr>
      else s)"

definition addArgument ::
  "CUdeviceptr \<Rightarrow> string \<Rightarrow> CudaBondedUtilities \<Rightarrow> CudaBondedUtilities \<times> string" where
  "addArgument data ty s =
     (let s1 = s\<lparr>arguments := arguments s @ [data]\<rparr>;
          s2 = s1\<lparr>argTypes := argTypes s1 @ [ty]\<rparr>
      in (s2, ''customArg'' @ intToString (int (length (arguments s2)))))"

definition addPrefixCode :: "string \<Rightarrow> CudaBondedUtilities \<Rightarrow> CudaBondedUtilities" where
  "addPrefixCode source s = s\<lparr>prefixCode := prefixCode s @ [source]\<rparr>"

text \<open>A sequence of registration calls, run from left to right.\<close>

datatype registration =
    AddInteraction "int list list" string int
  | AddArgument CUdeviceptr string
  | AddPrefixCode string

fun register :: "registration \<Rightarrow> CudaBondedUtilities \<Rightarrow> CudaBondedUtilities" where
  "register (AddInteraction atoms source grp) s = addInteraction atoms source grp s"
| "register (AddArgument data ty) s = fst (addArgument data ty s)"
| "register (AddPrefixCode source) s = addPrefixCode source s"

definition registerAll :: "registration list \<Rightarrow> CudaBondedUtilities \<Rightarrow> CudaBondedUtilities" where
  "registerAll rs s = fold register rs s"

fun isAddArgument :: "registration \<Rightarrow> bool" where
  "isAddArgument (AddArgument data ty) = True"
| "isAddArgument r = False"

section \<open>The atom index packer (first half of \<^verbatim>\<open>initialize\<close>)\<close>

definition readAtom :: "int list \<Rightarrow> nat \<Rightarrow> cell" where
  "readAtom tuple k = (if k < length tuple then Some (word_of_int (tuple ! k)) else None)"

text \<open>The two inner \<^verbatim>\<open>for\<close> loops that fill \<^verbatim>\<open>indexVec\<close>, one assignment per step.\<close>

definition fillBond :: "int list \<Rightarrow> nat \<Rightarrow> nat \<Rightarrow> nat \<Rightarrow> cell list \<Rightarrow> cell list" where
  "fillBond tuple startAtom width bond indexVec =
     fold (\<lambda>atom v. v[bond * width + atom := readAtom tuple (startAtom + atom)])
       [0..<width] indexVec"

definition fillIndexVec :: "int list list \<Rightarrow> nat \<Rightarrow> nat \<Rightarrow> cell list" where
  "fillIndexVec atoms startAtom width =
     fold (\<lambda>bond v. fillBond (atoms ! bond) startAtom width bond v)
       [0..<length atoms] (replicate (width * length atoms) (Some 0))"

text \<open>
  One element per iteration of the \<^verbatim>\<open>while (startAtom < numAtoms)\<close> loop: the values of
  \<^verbatim>\<open>startAtom\<close> and \<^verbatim>\<open>width\<close> in that iteration and the array it created and uploaded.
\<close>

record PackedBlock =
  blockStart :: nat
  blockWidth :: nat
  blockArray :: CudaArray

function packLoop :: "nat \<Rightarrow> int list list \<Rightarrow> nat \<Rightarrow> nat \<Rightarrow> PackedBlock list" where
  "packLoop elemSize atoms numAtoms startAtom =
     (if startAtom < numAtoms then
        let width0 = max (numAtoms - startAtom) 4;
            width = (if width0 = 3 then 4 else width0);
            indexVec = fillIndexVec atoms startAtom width;
            indices = upload (CudaArray_create elemSize (length indexVec) ''bondedIndices'') indexVec
        in \<lparr>blockStart = startAtom, blockWidth = width, blockArray = indices\<rparr>
             # packLoop elemSize atoms numAtoms (startAtom + width)
      else [])"
  by pat_completeness auto
termination
  by (relation "measure (\<lambda>(elemSize, atoms, numAtoms, startAtom). numAtoms - startAtom)")
     (auto simp: Let_def)

declare packLoop.simps [simp del]

text \<open>The body of the loop over the terms, for one term \<^verbatim>\<open>forceAtoms[i]\<close>.\<close>

definition packTerm :: "nat \<Rightarrow> int list list \<Rightarrow> PackedBlock list" where
  "packTerm elemSize atoms = packLoop elemSize atoms (length (atoms ! 0)) 0"

definition resize :: "nat \<Rightarrow> 'a list list \<Rightarrow> 'a list list" where
  "resize n xs = take n xs @ replicate (n - length xs) []"

definition buildAtomIndices ::
  "nat \<Rightarrow> int list list list \<Rightarrow> CudaArray list list \<Rightarrow> CudaArray list list" where
  "buildAtomIndices elemSize fAtoms aIndices =
     fold (\<lambda>i ai. ai[i := ai ! i @ map blockArray (packTerm elemSize (fAtoms ! i))])
       [0..<length fAtoms] (resize (length fAtoms) aIndices)"

section \<open>The kernel synthesizer\<close>

text \<open>
  \<^verbatim>\<open>CudaContext\<close> is an external collaborator. The model takes from it the padded atom
  count and the two calls that can fail: \<^verbatim>\<open>createModule\<close> and \<^verbatim>\<open>getKernel\<close> throw an
  exception when the source does not compile or has no such entry point, which is the
  result \<open>None\<close> here.
\<close>

record CudaContext =
  getPaddedNumAtoms :: int
  createModule :: "string \<Rightarrow> (string \<times> string) list \<Rightarrow> CUmodule option"
  getKernel :: "CUmodule \<Rightarrow> string \<Rightarrow> CUfunction option"

datatype error = ModuleCompilationFailed | KernelNotFound | SuffixOutOfRange

definition suffix1 :: "string list" where
  "suffix1 = ['''']"

definition suffix4 :: "string list" where
  "suffix4 = [''.x'', ''.y'', ''.z'', ''.w'']"

definition indexWidthOf :: "CudaArray \<Rightarrow> nat" where
  "indexWidthOf a = getElementSize a div 4"

definition indexTypeOf :: "nat \<Rightarrow> string" where
  "indexTypeOf indexWidth =
     ''unsigned int'' @ (if indexWidth = 1 then '''' else intToString (int indexWidth))"

text \<open>
  \<^verbatim>\<open>1<<group\<close> on a 32-bit \<^verbatim>\<open>int\<close>. For a group from 0 to 30 this is the power of two, for
  31 the sign bit (a negative number). C++ gives the shift no meaning for any other
  count; the model takes the count modulo 32, as the shift instruction of the host does.
\<close>

definition groupMask :: "int \<Rightarrow> int" where
  "groupMask grp = sint (push_bit (nat (grp mod 32)) (1 :: 32 word))"

subsection \<open>\<^verbatim>\<open>createForceSource\<close>\<close>

definition unpackLane :: "nat \<Rightarrow> nat \<Rightarrow> string list \<Rightarrow> nat \<Rightarrow> string" where
  "unpackLane i startAtom sfx j =
     ''    unsigned int atom'' @ showNat (startAtom + j + 1) @ '' = atoms'' @ showNat i
       @ sfx ! j @ '';\<newline>''
     @ ''    real4 pos'' @ showNat (j + 1) @ '' = posq[atom'' @ showNat (j + 1) @ ''];\<newline>''"

text \<open>
  The loop over the index arrays of one term; \<open>i\<close> is the loop counter and \<open>startAtom\<close>
  the running sum of the widths of the arrays before it.
\<close>

fun unpackBlocks :: "nat \<Rightarrow> CudaArray list \<Rightarrow> nat \<Rightarrow> nat \<Rightarrow> string" where
  "unpackBlocks forceIndex [] i startAtom = []"
| "unpackBlocks forceIndex (blk # blks) i startAtom =
     (let indexWidth = indexWidthOf blk;
          sfx = (if indexWidth = 1 then suffix1 else suffix4);
          indexType = indexTypeOf indexWidth
      in ''    '' @ indexType @ '' atoms'' @ showNat i @ '' = atomIndices'' @ showNat forceIndex
           @ ''_'' @ showNat i @ ''[index];\<newline>''
         @ ''    '' @ indexType @ '' buffers = bufferIndices'' @ showNat forceIndex
           @ ''[index];\<newline>''
         @ concat (map (unpackLane i startAtom sfx) [0..<indexWidth])
         @ unpackBlocks forceIndex blks (i + 1) (startAtom + indexWidth))"

text \<open>
  What the lines emitted by \<open>unpackBlocks\<close> load when the kernel runs them for the bond
  \<open>index\<close>. The parameter \<^verbatim>\<open>atomIndices<f>_<i>\<close> is declared as a pointer to vectors of
  \<open>indexWidth\<close> lanes (\<^verbatim>\<open>unsigned int\<close> for one lane), so \<^verbatim>\<open>atomIndices<f>_<i>[index]\<close> is
  the cells \<open>index * indexWidth\<close> up to \<open>index * indexWidth + indexWidth - 1\<close> of the
  uploaded buffer, and the suffix \<open>j\<close> selects lane \<open>j\<close> of them. The result lists, for
  every \<^verbatim>\<open>atom<n>\<close> the text declares, the number \<open>n\<close> and the cell it is given; a cell
  beyond the buffer is \<open>None\<close>. The recursion is that of \<open>unpackBlocks\<close>.
\<close>

definition cellAt :: "CudaArray \<Rightarrow> nat \<Rightarrow> cell" where
  "cellAt a p = (if p < length (contents a) then contents a ! p else None)"

fun unpackedAtoms :: "CudaArray list \<Rightarrow> nat \<Rightarrow> nat \<Rightarrow> (nat \<times> cell) list" where
  "unpackedAtoms [] index startAtom = []"
| "unpackedAtoms (blk # blks) index startAtom =
     (let indexWidth = indexWidthOf blk
      in map (\<lambda>j. (startAtom + j + 1, cellAt blk (index * indexWidth + j))) [0..<indexWidth]
         @ unpackedAtoms blks index (startAtom + indexWidth))"

definition scatterAtom :: "nat \<Rightarrow> string" where
  "scatterAtom i =
     ''    atomicAdd(&forceBuffer[atom'' @ showNat (i + 1)
       @ ''], (long) (force.x*0xFFFFFFFF));\<newline>''
     @ ''    atomicAdd(&forceBuffer[atom'' @ showNat (i + 1)
       @ ''+PADDED_NUM_ATOMS], (long) (force.x*0xFFFFFFFF));\<newline>''
     @ ''    atomicAdd(&forceBuffer[atom'' @ showNat (i + 1)
       @ ''+PADDED_NUM_ATOMS*2], (long) (force.x*0xFFFFFFFF));\<newline>''"

definition forceSourceText ::
  "CudaArray list \<Rightarrow> nat \<Rightarrow> nat \<Rightarrow> nat \<Rightarrow> int \<Rightarrow> string \<Rightarrow> string" where
  "forceSourceText blocks forceIndex numBonds numAtoms grp computeForce =
     ''if ((groups&'' @ showInt (groupMask grp) @ '') != 0)\<newline>''
     @ ''for (unsigned int index = blockIdx.x*blockDim.x+threadIdx.x; index < ''
       @ showNat numBonds @ ''; index += blockDim.x*gridDim.x) {\<newline>''
     @ unpackBlocks forceIndex blocks 0 0
     @ computeForce @ ''\<newline>''
     @ concat (map scatterAtom [0..<numAtoms])
     @ ''}\<newline>''"

text \<open>
  \<^verbatim>\<open>createForceSource\<close> updates \<^verbatim>\<open>maxBonds\<close> and returns the text. The table
  \<^verbatim>\<open>suffix4\<close> has four entries and the source indexes it with \<^verbatim>\<open>j < indexWidth\<close>
  unchecked; an index array wider than four lanes makes that read leave the table, which
  is the error \<open>SuffixOutOfRange\<close> here.
\<close>

definition createForceSource ::
  "nat \<Rightarrow> nat \<Rightarrow> nat \<Rightarrow> int \<Rightarrow> string \<Rightarrow> CudaBondedUtilities
     \<Rightarrow> error + (CudaBondedUtilities \<times> string)" where
  "createForceSource forceIndex numBonds numAtoms grp computeForce s =
     (let s1 = s\<lparr>maxBonds := max (maxBonds s) numBonds\<rparr>;
          blocks = atomIndices s1 ! forceIndex
      in if list_ex (\<lambda>blk. 4 < indexWidthOf blk) blocks then Inl SuffixOutOfRange
         else Inr (s1, forceSourceText blocks forceIndex numBonds numAtoms grp computeForce))"

subsection \<open>\<^verbatim>\<open>initialize\<close>\<close>

text \<open>
  The source indexes \<^verbatim>\<open>argTypes\<close> up to the size of \<^verbatim>\<open>arguments\<close>, and \<^verbatim>\<open>forceGroup\<close>,
  \<^verbatim>\<open>forceSource\<close> and the first bond record of every term up to the size of
  \<^verbatim>\<open>forceAtoms\<close>. On an object built by registration calls these reads are in range:
  the vectors grow together, and no term is empty (\<open>registered_wellformed\<close> below).
\<close>

definition signatureHead :: string where
  "signatureHead =
     ''extern '' @ [CHR 0x22] @ ''C'' @ [CHR 0x22]
     @ '' __global__ void computeBondedForces(long* __restrict__ forceBuffer, real* __restrict__ energyBuffer, const real4* __restrict__ posq, int groups''"

definition indexParam :: "CudaArray list list \<Rightarrow> nat \<Rightarrow> nat \<Rightarrow> string" where
  "indexParam aIndices force i =
     (let indexWidth = indexWidthOf (aIndices ! force ! i);
          indexType = indexTypeOf indexWidth
      in '', const '' @ indexType @ ''* __restrict__ atomIndices'' @ showNat force @ ''_''
           @ showNat i)"

definition indexParams :: "CudaArray list list \<Rightarrow> nat \<Rightarrow> string" where
  "indexParams aIndices numForces =
     concat (map (\<lambda>force. concat (map (indexParam aIndices force)
                                    [0..<length (aIndices ! force)]))
               [0..<numForces])"

definition argParams :: "string list \<Rightarrow> nat \<Rightarrow> string" where
  "argParams aTypes numArgs =
     concat (map (\<lambda>i. '', '' @ aTypes ! i @ ''* customArg'' @ showNat (i + 1)) [0..<numArgs])"

definition kernelSignature :: "CudaBondedUtilities \<Rightarrow> nat \<Rightarrow> string" where
  "kernelSignature s numForces =
     signatureHead @ indexParams (atomIndices s) numForces
     @ argParams (argTypes s) (length (arguments s)) @ '') {\<newline>''"

text \<open>
  The text that the call of \<^verbatim>\<open>createForceSource\<close> made by \<^verbatim>\<open>initialize\<close> for the term
  \<open>force\<close> returns: its arguments are read from the members at that index.
\<close>

definition termText :: "CudaBondedUtilities \<Rightarrow> nat \<Rightarrow> string" where
  "termText s force =
     forceSourceText (atomIndices s ! force) force (length (forceAtoms s ! force))
       (length (forceAtoms s ! force ! 0)) (forceGroup s ! force) (forceSource s ! force)"

text \<open>The loop that calls \<^verbatim>\<open>createForceSource\<close> for every term and appends the results.\<close>

fun forceSources ::
  "nat list \<Rightarrow> CudaBondedUtilities \<Rightarrow> error + (CudaBondedUtilities \<times> string)" where
  "forceSources [] s = Inr (s, [])"
| "forceSources (force # rest) s =
     (case createForceSource force (length (forceAtoms s ! force))
             (length (forceAtoms s ! force ! 0)) (forceGroup s ! force) (forceSource s ! force) s of
        Inl e \<Rightarrow> Inl e
      | Inr (s1, txt) \<Rightarrow>
          (case forceSources rest s1 of
             Inl e \<Rightarrow> Inl e
           | Inr (s2, txts) \<Rightarrow> Inr (s2, txt @ txts)))"

definition kernelEpilogue :: string where
  "kernelEpilogue =
     ''energyBuffer[blockIdx.x*blockDim.x+threadIdx.x] += energy;\<newline>'' @ ''}\<newline>''"

text \<open>
  The part of \<^verbatim>\<open>initialize\<close> under the comment \<^verbatim>\<open>// Create the kernel.\<close>, up to the text
  \<^verbatim>\<open>s.str()\<close> that is handed to the compiler: the prefix fragments, the signature, the
  per-term bodies and the epilogue.
\<close>

definition kernelSource ::
  "nat \<Rightarrow> CudaBondedUtilities \<Rightarrow> error + (CudaBondedUtilities \<times> string)" where
  "kernelSource numForces s =
     (case forceSources [0..<numForces] s of
        Inl e \<Rightarrow> Inl e
      | Inr (s2, body) \<Rightarrow>
          Inr (s2, concat (prefixCode s) @ kernelSignature s numForces
                   @ ''real energy = 0;\<newline>'' @ body @ kernelEpilogue))"

definition initialize ::
  "CudaContext \<Rightarrow> nat \<Rightarrow> CudaBondedUtilities \<Rightarrow> error + CudaBondedUtilities" where
  "initialize context elemSize s =
     (let numForces = length (forceAtoms s) in
      if numForces = 0 then Inr s
      else
        let s1 = s\<lparr>atomIndices := buildAtomIndices elemSize (forceAtoms s) (atomIndices s)\<rparr>
        in case kernelSource numForces s1 of
             Inl e \<Rightarrow> Inl e
           | Inr (s2, source) \<Rightarrow>
               let defines = [(''PADDED_NUM_ATOMS'', intToString (getPaddedNumAtoms context))]
               in (case createModule context source defines of
                     None \<Rightarrow> Inl ModuleCompilationFailed
                   | Some module \<Rightarrow>
                       (case getKernel context module ''computeBondedForces'' of
                          None \<Rightarrow> Inl KernelNotFound
                        | Some k \<Rightarrow>
                            Inr (s2\<lparr>kernel := Some k, forceAtoms := [], forceSource := []\<rparr>))))"

section \<open>The dispatcher\<close>

text \<open>
  A kernel launch, as \<^verbatim>\<open>computeInteractions\<close> would hand it to the context: the kernel,
  the group mask and the work size. The body of \<^verbatim>\<open>computeInteractions\<close> in the source is
  commented out as a whole, so the function performs no launch and changes no member.
\<close>

record Launch =
  launchKernel :: CUfunction
  launchGroups :: int
  launchSize :: nat

definition computeInteractions ::
  "int \<Rightarrow> CudaBondedUtilities \<Rightarrow> CudaBondedUtilities \<times> Launch list" where
  "computeInteractions groups s = (s, [])"

section \<open>Occurrences of a name in generated text\<close>

text \<open>
  \<open>everyOccurrence P p t\<close>: wherever the text \<open>t\<close> contains \<open>p\<close>, the part of \<open>t\<close>
  before that occurrence satisfies \<open>P\<close>. With \<open>P = suffix q\<close> every occurrence of \<open>p\<close>
  directly follows \<open>q\<close>; with a \<open>P\<close> that never holds, \<open>p\<close> does not occur.
  \<open>closedLine\<close> adds that the text is empty or ends with a character that is not one of
  \<open>p\<close>.
\<close>

definition everyOccurrence :: "(string \<Rightarrow> bool) \<Rightarrow> string \<Rightarrow> string \<Rightarrow> bool" where
  "everyOccurrence P p t \<longleftrightarrow> (\<forall>pre post. t = pre @ p @ post \<longrightarrow> P pre)"

definition closedLine :: "(string \<Rightarrow> bool) \<Rightarrow> string \<Rightarrow> string \<Rightarrow> bool" where
  "closedLine P p t \<longleftrightarrow> everyOccurrence P p t \<and> (t = [] \<or> last t \<notin> set p)"

section \<open>Properties of the decimal rendering\<close>

lemma digitVal_digitChar: "d < 10 \<Longrightarrow> digitVal (digitChar d) = d"
proof -
  assume "d < 10"
  then have "d \<in> {0,1,2,3,4,5,6,7,8,9}" by auto
  then show ?thesis by (auto simp: digitVal_def digitChar_def)
qed

lemma digitChar_in_digits: "d < 10 \<Longrightarrow> digitChar d \<in> set ''0123456789''"
  unfolding digitChar_def by (rule nth_mem) simp

lemma readNat_snoc: "readNat (cs @ [c]) = 10 * readNat cs + digitVal c"
  by (simp add: readNat_def)

lemma readNat_showNat: "readNat (showNat n) = n"
proof (induction n rule: showNat.induct)
  case (1 n)
  show ?case
  proof (cases "n < 10")
    case True
    then show ?thesis
      by (subst showNat.simps) (simp add: readNat_def digitVal_digitChar)
  next
    case False
    then have "readNat (showNat n) = 10 * readNat (showNat (n div 10)) + digitVal (digitChar (n mod 10))"
      by (subst showNat.simps) (simp add: readNat_snoc)
    also have "\<dots> = 10 * (n div 10) + n mod 10"
      using "1.IH" [OF False] by (simp add: digitVal_digitChar)
    finally show ?thesis by simp
  qed
qed

lemma showNat_digits: "set (showNat n) \<subseteq> set ''0123456789''"
proof (induction n rule: showNat.induct)
  case (1 n)
  show ?case
  proof (cases "n < 10")
    case True
    then show ?thesis
      using digitChar_in_digits [of n] by (subst showNat.simps) simp
  next
    case False
    have "n mod 10 < 10" by simp
    then have "digitChar (n mod 10) \<in> set ''0123456789''" by (rule digitChar_in_digits)
    with "1.IH" [OF False] False show ?thesis
      by (subst showNat.simps) simp
  qed
qed

lemma showNat_nonempty: "showNat n \<noteq> []"
  by (subst showNat.simps) simp

section \<open>Properties of the registration calls\<close>

lemma arguments_addInteraction [simp]: "arguments (addInteraction atoms source grp s) = arguments s"
  by (simp add: addInteraction_def)

lemma arguments_addPrefixCode [simp]: "arguments (addPrefixCode source s) = arguments s"
  by (simp add: addPrefixCode_def)

lemma addArgument_eq:
  "addArgument data ty s =
     (s\<lparr>arguments := arguments s @ [data], argTypes := argTypes s @ [ty]\<rparr>,
      ''customArg'' @ showNat (Suc (length (arguments s))))"
proof -
  have "nat (1 + int (length (arguments s))) = Suc (length (arguments s))" by simp
  then show ?thesis
    by (simp add: addArgument_def intToString_def showInt_def Let_def)
qed

lemma length_arguments_register:
  "length (arguments (register r s)) = length (arguments s) + (if isAddArgument r then 1 else 0)"
  by (cases r) (simp_all add: addArgument_eq)

lemma length_arguments_fold:
  "length (arguments (fold register rs s)) = length (arguments s) + length (filter isAddArgument rs)"
  by (induction rs arbitrary: s) (simp_all add: length_arguments_register)

lemma length_arguments_registerAll:
  "length (arguments (registerAll rs newCudaBondedUtilities)) = length (filter isAddArgument rs)"
  by (simp add: registerAll_def length_arguments_fold newCudaBondedUtilities_def)

text \<open>
  Every object built by registration calls keeps the per-term vectors at one length, the
  argument vectors at one length, and has no term without bond records.
\<close>

lemma register_wellformed:
  assumes "length (forceSource s) = length (forceAtoms s)"
    and "length (forceGroup s) = length (forceAtoms s)"
    and "length (argTypes s) = length (arguments s)"
    and "[] \<notin> set (forceAtoms s)"
  shows "length (forceSource (register r s)) = length (forceAtoms (register r s))
       \<and> length (forceGroup (register r s)) = length (forceAtoms (register r s))
       \<and> length (argTypes (register r s)) = length (arguments (register r s))
       \<and> [] \<notin> set (forceAtoms (register r s))"
  using assms
  by (cases r) (auto simp: addInteraction_def addArgument_eq addPrefixCode_def)

lemma fold_register_wellformed:
  assumes "length (forceSource s) = length (forceAtoms s)"
    and "length (forceGroup s) = length (forceAtoms s)"
    and "length (argTypes s) = length (arguments s)"
    and "[] \<notin> set (forceAtoms s)"
  shows "length (forceSource (fold register rs s)) = length (forceAtoms (fold register rs s))
       \<and> length (forceGroup (fold register rs s)) = length (forceAtoms (fold register rs s))
       \<and> length (argTypes (fold register rs s)) = length (arguments (fold register rs s))
       \<and> [] \<notin> set (forceAtoms (fold register rs s))"
  using assms
proof (induction rs arbitrary: s)
  case Nil
  then show ?case by simp
next
  case (Cons r rs)
  from register_wellformed [OF Cons.prems, of r] show ?case
    by (simp add: Cons.IH)
qed

lemma registered_wellformed:
  "length (forceSource (registerAll rs newCudaBondedUtilities))
     = length (forceAtoms (registerAll rs newCudaBondedUtilities))
   \<and> length (forceGroup (registerAll rs newCudaBondedUtilities))
     = length (forceAtoms (registerAll rs newCudaBondedUtilities))
   \<and> length (argTypes (registerAll rs newCudaBondedUtilities))
     = length (arguments (registerAll rs newCudaBondedUtilities))
   \<and> [] \<notin> set (forceAtoms (registerAll rs newCudaBondedUtilities))"
  unfolding registerAll_def
  by (rule fold_register_wellformed) (simp_all add: newCudaBondedUtilities_def)

text \<open>
  C9. \<^verbatim>\<open>addInteraction\<close> with an empty list of bond records returns the registry as it
  was, with no error; with a non-empty list (one that has a first record) it appends one
  term: the bond records to \<^verbatim>\<open>forceAtoms\<close>, the snippet to \<^verbatim>\<open>forceSource\<close>, the group to
  \<^verbatim>\<open>forceGroup\<close>, and changes nothing else.
\<close>

theorem addInteraction_empty_noop_else_append:
  "addInteraction [] source grp s = s
   \<and> addInteraction (a # as) source grp s =
       s\<lparr>forceAtoms := forceAtoms s @ [a # as],
         forceSource := forceSource s @ [source],
         forceGroup := forceGroup s @ [grp]\<rparr>"
  by (simp add: addInteraction_def)

text \<open>
  C10. \<^verbatim>\<open>addArgument\<close> appends the buffer and the type name and returns \<^verbatim>\<open>customArg\<close>
  followed by the rendering of the number of arguments after the insertion. After any
  sequence \<open>rs\<close> of registrations made on a new object, that number is one more than the
  number of \<^verbatim>\<open>addArgument\<close> calls in \<open>rs\<close>: the call is the Nth. The rendering is the
  decimal one: it consists of decimal digits and reads back as the number.
\<close>

theorem addArgument_returns_customArgN:
  "addArgument data ty s =
     (s\<lparr>arguments := arguments s @ [data], argTypes := argTypes s @ [ty]\<rparr>,
      ''customArg'' @ showNat (length (arguments s) + 1))
   \<and> snd (addArgument data ty (registerAll rs newCudaBondedUtilities)) =
       ''customArg'' @ showNat (length (filter isAddArgument rs) + 1)
   \<and> length (arguments (fst (addArgument data ty (registerAll rs newCudaBondedUtilities)))) =
       length (filter isAddArgument rs) + 1
   \<and> readNat (showNat n) = n \<and> set (showNat n) \<subseteq> set ''0123456789''"
proof (intro conjI)
  show "addArgument data ty s =
     (s\<lparr>arguments := arguments s @ [data], argTypes := argTypes s @ [ty]\<rparr>,
      ''customArg'' @ showNat (length (arguments s) + 1))"
    by (simp add: addArgument_eq)
  show "snd (addArgument data ty (registerAll rs newCudaBondedUtilities)) =
       ''customArg'' @ showNat (length (filter isAddArgument rs) + 1)"
    by (simp add: addArgument_eq length_arguments_registerAll)
  show "length (arguments (fst (addArgument data ty (registerAll rs newCudaBondedUtilities)))) =
       length (filter isAddArgument rs) + 1"
    by (simp add: addArgument_eq length_arguments_registerAll)
  show "readNat (showNat n) = n" by (rule readNat_showNat)
  show "set (showNat n) \<subseteq> set ''0123456789''" by (rule showNat_digits)
qed


section \<open>Properties of the atom index packer\<close>

lemma length_fold_update:
  "length (fold (\<lambda>a v. v[f a := g a]) xs v) = length v"
  by (induction xs arbitrary: v) auto

lemma fold_update_nth_other:
  "p \<notin> f ` set xs \<Longrightarrow> fold (\<lambda>a v. v[f a := g a]) xs v ! p = v ! p"
  by (induction xs arbitrary: v) auto

lemma fold_update_nth_hit:
  "a \<in> set xs \<Longrightarrow> inj_on f (set xs) \<Longrightarrow> f a < length v \<Longrightarrow>
   fold (\<lambda>a v. v[f a := g a]) xs v ! (f a) = g a"
proof (induction xs arbitrary: v)
  case Nil
  then show ?case by simp
next
  case (Cons x xs)
  show ?case
  proof (cases "a \<in> set xs")
    case True
    have "inj_on f (set xs)" using Cons.prems(2) by (auto simp: inj_on_def)
    with Cons.IH [OF True, of "v[f x := g x]"] Cons.prems(3) show ?thesis by simp
  next
    case False
    with Cons.prems(1) have ax: "a = x" by simp
    have "f a \<notin> f ` set xs"
      using False Cons.prems(2) ax by (auto simp: inj_on_def)
    then have "fold (\<lambda>a v. v[f a := g a]) xs (v[f x := g x]) ! f a = v[f x := g x] ! f a"
      by (rule fold_update_nth_other)
    with ax Cons.prems(3) show ?thesis by simp
  qed
qed

lemma length_fillBond: "length (fillBond tuple startAtom width bond v) = length v"
  by (simp add: fillBond_def length_fold_update)

lemma fillBond_nth_hit:
  assumes "atom < width" "bond * width + atom < length v"
  shows "fillBond tuple startAtom width bond v ! (bond * width + atom)
         = readAtom tuple (startAtom + atom)"
proof -
  have "atom \<in> set [0..<width]" using assms(1) by simp
  moreover have "inj_on (\<lambda>a. bond * width + a) (set [0..<width])" by (simp add: inj_on_def)
  ultimately show ?thesis
    unfolding fillBond_def
    using fold_update_nth_hit [of atom "[0..<width]" "\<lambda>a. bond * width + a" v
        "\<lambda>a. readAtom tuple (startAtom + a)"] assms(2)
    by simp
qed

lemma fillBond_nth_other:
  assumes "p < bond * width \<or> bond * width + width \<le> p"
  shows "fillBond tuple startAtom width bond v ! p = v ! p"
proof -
  have "p \<notin> (\<lambda>a. bond * width + a) ` set [0..<width]" using assms by auto
  then show ?thesis unfolding fillBond_def by (rule fold_update_nth_other)
qed

lemma length_fold_fillBond:
  "length (fold (\<lambda>bond v. fillBond (atoms ! bond) startAtom width bond v) bs v) = length v"
  by (induction bs arbitrary: v) (auto simp: length_fillBond)

lemma fold_fillBond_nth:
  assumes "bond < n" "atom < width" "n * width \<le> length v"
  shows "fold (\<lambda>bond v. fillBond (atoms ! bond) startAtom width bond v) [0..<n] v
           ! (bond * width + atom)
         = readAtom (atoms ! bond) (startAtom + atom)"
  using assms
proof (induction n)
  case 0
  then show ?case by simp
next
  case (Suc n)
  let ?w = "fold (\<lambda>bond v. fillBond (atoms ! bond) startAtom width bond v) [0..<n] v"
  have len: "length ?w = length v" by (rule length_fold_fillBond)
  have le: "n * width \<le> length v" using Suc.prems(3) by simp
  show ?case
  proof (cases "bond < n")
    case True
    have "bond * width + atom < Suc bond * width" using Suc.prems(2) by simp
    also have "\<dots> \<le> n * width" by (rule mult_le_mono1) (use True in simp)
    finally have lt: "bond * width + atom < n * width" .
    have "fillBond (atoms ! n) startAtom width n ?w ! (bond * width + atom)
          = ?w ! (bond * width + atom)"
      by (rule fillBond_nth_other) (use lt in simp)
    with Suc.IH [OF True Suc.prems(2) le] show ?thesis by simp
  next
    case False
    with Suc.prems(1) have bn: "bond = n" by simp
    have "n * width + atom < length ?w" using Suc.prems(2,3) len by simp
    with fillBond_nth_hit [OF Suc.prems(2), of n ?w "atoms ! n" startAtom] bn
    show ?thesis by simp
  qed
qed

lemma length_fillIndexVec: "length (fillIndexVec atoms startAtom width) = width * length atoms"
  by (simp add: fillIndexVec_def length_fold_fillBond)

lemma fillIndexVec_nth:
  "bond < length atoms \<Longrightarrow> atom < width \<Longrightarrow>
   fillIndexVec atoms startAtom width ! (bond * width + atom)
   = readAtom (atoms ! bond) (startAtom + atom)"
  unfolding fillIndexVec_def by (rule fold_fillBond_nth) simp_all

text \<open>
  The loop runs once: the width it chooses is \<open>max (numAtoms - startAtom) 4\<close>, never less
  than what is left of the tuple, so the first block ends the loop. The test
  \<^verbatim>\<open>width == 3\<close> never holds.
\<close>

lemma packLoop_single:
  assumes "startAtom < numAtoms"
  shows "packLoop elemSize atoms numAtoms startAtom =
     [\<lparr>blockStart = startAtom, blockWidth = max (numAtoms - startAtom) 4,
       blockArray =
         upload (CudaArray_create elemSize (max (numAtoms - startAtom) 4 * length atoms)
                   ''bondedIndices'')
           (fillIndexVec atoms startAtom (max (numAtoms - startAtom) 4))\<rparr>]"
proof -
  have w: "(if max (numAtoms - startAtom) 4 = 3 then 4 else max (numAtoms - startAtom) 4)
           = max (numAtoms - startAtom) 4"
    by simp
  have stop: "\<not> startAtom + max (numAtoms - startAtom) 4 < numAtoms" by simp
  have rest: "packLoop elemSize atoms numAtoms (startAtom + max (numAtoms - startAtom) 4) = []"
    using stop by (subst packLoop.simps) simp
  show ?thesis
    by (subst packLoop.simps) (simp only: assms if_True Let_def w rest length_fillIndexVec)
qed

lemma packLoop_done: "\<not> startAtom < numAtoms \<Longrightarrow> packLoop elemSize atoms numAtoms startAtom = []"
  by (subst packLoop.simps) simp

lemma packTerm_eq:
  "packTerm elemSize atoms =
     (if 0 < length (atoms ! 0)
      then [\<lparr>blockStart = 0, blockWidth = max (length (atoms ! 0)) 4,
              blockArray =
                upload (CudaArray_create elemSize (max (length (atoms ! 0)) 4 * length atoms)
                          ''bondedIndices'')
                  (fillIndexVec atoms 0 (max (length (atoms ! 0)) 4))\<rparr>]
      else [])"
  using packLoop_single [of 0 "length (atoms ! 0)" elemSize atoms]
        packLoop_done [of 0 "length (atoms ! 0)" elemSize atoms]
  by (simp add: packTerm_def)

lemma contents_upload: "contents (upload a v) = v"
  by (simp add: upload_def)

lemma fillIndexVec_1_4: "fillIndexVec [[a]] 0 4 = [Some (word_of_int a), None, None, None]"
  by (simp add: fillIndexVec_def fillBond_def readAtom_def upt_conv_Cons numeral_eq_Suc)

text \<open>
  C3. The specification has the lane width at an offset be 4 unless fewer than four slots
  are left, and then be what is left (3 promoted to 4). The source computes
  \<^verbatim>\<open>max(numAtoms-startAtom, 4)\<close>, the larger of the two, so the only offset reached is 0
  and the width there is the larger of the arity and 4: a term of arity 5 gets the width
  5 at offset 0 where the specification says 4, and a term of arity 1 gets 4 where it says
  1.
\<close>

theorem lane_width_is_max_of_rest_and_4:
  "map (\<lambda>b. (blockStart b, blockWidth b)) (packTerm elemSize atoms) =
     (if 0 < length (atoms ! 0) then [(0, max (length (atoms ! 0)) 4)] else [])
   \<and> map (\<lambda>b. (blockStart b, blockWidth b)) (packTerm elemSize [[0, 1, 2, 3, 4]]) = [(0, 5)]
   \<and> map (\<lambda>b. (blockStart b, blockWidth b)) (packTerm elemSize [[0]]) = [(0, 4)]"
  by (simp add: packTerm_eq)

text \<open>
  C4. The specification has a term of arity 5 packed into two blocks, of widths 4 and 1.
  The source packs every term of positive arity into a single block; two bond records of
  arity 5 give one block of width 5, with a buffer of 10 entries.
\<close>

theorem arity5_packs_into_one_block_of_width_5:
  "length (packTerm elemSize atoms) = (if 0 < length (atoms ! 0) then 1 else 0)
   \<and> map (\<lambda>b. (blockWidth b, length (contents (blockArray b))))
        (packTerm elemSize [[0, 1, 2, 3, 4], [5, 6, 7, 8, 9]]) = [(5, 10)]"
  by (simp add: packTerm_eq contents_upload length_fillIndexVec)

text \<open>
  C5. The specification has every read of the packer stay inside the tuple when the
  arity is not 3 modulo 4. For the single bond record \<open>[7]\<close> of arity 1 the source fills a block of
  width 4: the first cell is read from the tuple, the other three from behind it.
\<close>

theorem arity1_block_reads_past_tuple:
  "map (\<lambda>b. contents (blockArray b)) (packTerm elemSize [[7]]) = [[Some 7, None, None, None]]"
  by (simp add: packTerm_eq contents_upload fillIndexVec_1_4)

text \<open>
  Where the packer puts an atom index: for a term with at least one bond record, all of
  arity \<open>A \<ge> 1\<close>, the block covers every slot \<open>k < A\<close>, and its cell
  \<open>b * width + (k - offset)\<close> holds \<open>bondRecords[b][k]\<close>, converted to \<^verbatim>\<open>unsigned int\<close>.
  The stride of this layout is the packer's \<^verbatim>\<open>width\<close>.
\<close>

lemma packed_cell_layout:
  assumes "atoms \<noteq> []" and "\<forall>t \<in> set atoms. length t = A" and "1 \<le> A"
    and "b < length atoms" and "k < A"
  shows "\<exists>blk \<in> set (packTerm elemSize atoms).
           blockStart blk \<le> k \<and> k < blockStart blk + blockWidth blk
           \<and> length (contents (blockArray blk)) = blockWidth blk * length atoms
           \<and> contents (blockArray blk) ! (b * blockWidth blk + (k - blockStart blk))
               = Some (word_of_int (atoms ! b ! k))
           \<and> (0 \<le> atoms ! b ! k \<and> atoms ! b ! k < 2 ^ 32 \<longrightarrow>
                map_option uint (contents (blockArray blk) ! (b * blockWidth blk + (k - blockStart blk)))
                  = Some (atoms ! b ! k))"
proof -
  have A0: "length (atoms ! 0) = A" using assms(1,2) by (cases atoms) auto
  have Ab: "length (atoms ! b) = A" using assms(2,4) by simp
  let ?w = "max A 4"
  have kw: "k < ?w" using assms(5) by simp
  have "fillIndexVec atoms 0 ?w ! (b * ?w + k) = readAtom (atoms ! b) (0 + k)"
    using assms(4) kw by (rule fillIndexVec_nth)
  also have "\<dots> = Some (word_of_int (atoms ! b ! k))"
    using Ab assms(5) by (simp add: readAtom_def)
  finally have cell: "fillIndexVec atoms 0 ?w ! (b * ?w + k) = Some (word_of_int (atoms ! b ! k))" .
  have recover: "0 \<le> v \<Longrightarrow> v < 2 ^ 32 \<Longrightarrow> uint (word_of_int v :: 32 word) = v" for v :: int
    by (simp add: uint_word_of_int take_bit_int_eq_self)
  show ?thesis
    using assms(3,5) cell A0 recover [of "atoms ! b ! k"]
    by (simp add: packTerm_eq contents_upload length_fillIndexVec)
qed

section \<open>Building the kernel\<close>

lemma createForceSource_eq:
  "createForceSource force (length (forceAtoms s ! force)) (length (forceAtoms s ! force ! 0))
     (forceGroup s ! force) (forceSource s ! force) s =
   (if list_ex (\<lambda>blk. 4 < indexWidthOf blk) (atomIndices s ! force) then Inl SuffixOutOfRange
    else Inr (s\<lparr>maxBonds := max (maxBonds s) (length (forceAtoms s ! force))\<rparr>, termText s force))"
  by (simp add: createForceSource_def termText_def Let_def)

lemma termText_maxBonds [simp]: "termText (s\<lparr>maxBonds := m\<rparr>) = termText s"
  by (rule ext) (simp add: termText_def)

text \<open>
  The loop over the terms fails when some index array is wider than four lanes;
  otherwise it returns the texts of the terms in order, and the only member it changes is
  \<^verbatim>\<open>maxBonds\<close>, raised to the largest bond count among the terms.
\<close>

lemma forceSources_eq:
  "forceSources fs s =
     (if \<exists>f \<in> set fs. list_ex (\<lambda>blk. 4 < indexWidthOf blk) (atomIndices s ! f)
      then Inl SuffixOutOfRange
      else Inr (s\<lparr>maxBonds := fold (\<lambda>f m. max m (length (forceAtoms s ! f))) fs (maxBonds s)\<rparr>,
                concat (map (termText s) fs)))"
proof (induction fs arbitrary: s)
  case Nil
  show ?case by simp
next
  case (Cons f fs)
  show ?case
  proof (cases "list_ex (\<lambda>blk. 4 < indexWidthOf blk) (atomIndices s ! f)")
    case True
    then show ?thesis by (simp add: createForceSource_eq)
  next
    case False
    let ?s1 = "s\<lparr>maxBonds := max (maxBonds s) (length (forceAtoms s ! f))\<rparr>"
    have step: "forceSources (f # fs) s =
        (case forceSources fs ?s1 of Inl e \<Rightarrow> Inl e
         | Inr (s2, txts) \<Rightarrow> Inr (s2, termText s f @ txts))"
      using False by (simp add: createForceSource_eq)
    show ?thesis
      unfolding step Cons.IH [of ?s1] using False by simp
  qed
qed

lemma kernelSource_eq:
  "kernelSource n s =
     (if \<exists>f < n. list_ex (\<lambda>blk. 4 < indexWidthOf blk) (atomIndices s ! f)
      then Inl SuffixOutOfRange
      else Inr (s\<lparr>maxBonds := fold (\<lambda>f m. max m (length (forceAtoms s ! f))) [0..<n] (maxBonds s)\<rparr>,
                concat (prefixCode s) @ kernelSignature s n @ ''real energy = 0;\<newline>''
                @ concat (map (termText s) [0..<n]) @ kernelEpilogue))"
  by (simp add: kernelSource_def forceSources_eq)

lemma kernelSource_Inr:
  assumes "kernelSource n s = Inr (s2, src)"
  shows "s2 = s\<lparr>maxBonds := fold (\<lambda>f m. max m (length (forceAtoms s ! f))) [0..<n] (maxBonds s)\<rparr>"
    and "src = concat (prefixCode s) @ kernelSignature s n @ ''real energy = 0;\<newline>''
                @ concat (map (termText s) [0..<n]) @ kernelEpilogue"
    and "\<forall>f < n. \<forall>blk \<in> set (atomIndices s ! f). indexWidthOf blk \<le> 4"
proof -
  have ok: "\<not> (\<exists>f < n. list_ex (\<lambda>blk. 4 < indexWidthOf blk) (atomIndices s ! f))"
    using assms by (simp add: kernelSource_eq split: if_splits)
  show "s2 = s\<lparr>maxBonds := fold (\<lambda>f m. max m (length (forceAtoms s ! f))) [0..<n] (maxBonds s)\<rparr>"
    using assms ok by (simp add: kernelSource_eq)
  show "src = concat (prefixCode s) @ kernelSignature s n @ ''real energy = 0;\<newline>''
                @ concat (map (termText s) [0..<n]) @ kernelEpilogue"
    using assms ok by (simp add: kernelSource_eq)
  show "\<forall>f < n. \<forall>blk \<in> set (atomIndices s ! f). indexWidthOf blk \<le> 4"
  proof (intro allI impI ballI)
    fix f blk
    assume "f < n" and "blk \<in> set (atomIndices s ! f)"
    with ok have "\<not> 4 < indexWidthOf blk" unfolding list_ex_iff by blast
    then show "indexWidthOf blk \<le> 4" by simp
  qed
qed

text \<open>The packer's loop over the terms appends the blocks of term \<open>i\<close> to \<^verbatim>\<open>atomIndices[i]\<close>.\<close>

lemma length_fold_append_at:
  "length (fold (\<lambda>i ai. ai[i := ai ! i @ g i]) is xs) = length xs"
  by (induction "is" arbitrary: xs) auto

lemma fold_append_at_nth:
  assumes "n \<le> length xs" "i < length xs"
  shows "fold (\<lambda>i ai. ai[i := ai ! i @ g i]) [0..<n] xs ! i = (if i < n then xs ! i @ g i else xs ! i)"
  using assms
proof (induction n arbitrary: i)
  case 0
  then show ?case by simp
next
  case (Suc n)
  let ?w = "fold (\<lambda>i ai. ai[i := ai ! i @ g i]) [0..<n] xs"
  have len: "length ?w = length xs" by (rule length_fold_append_at)
  have nle: "n \<le> length xs" and nlt: "n < length xs" using Suc.prems(1) by simp_all
  have IHi: "?w ! i = (if i < n then xs ! i @ g i else xs ! i)"
    using nle Suc.prems(2) by (rule Suc.IH)
  have "?w ! n = (if n < n then xs ! n @ g n else xs ! n)"
    using nle nlt by (rule Suc.IH)
  then have IHn: "?w ! n = xs ! n" by simp
  have step: "fold (\<lambda>i ai. ai[i := ai ! i @ g i]) [0..<Suc n] xs = ?w[n := ?w ! n @ g n]"
    by simp
  show ?case
  proof (cases "i = n")
    case True
    then show ?thesis unfolding step using nlt len IHn by simp
  next
    case False
    then show ?thesis unfolding step using IHi Suc.prems(2) by (simp add: less_Suc_eq)
  qed
qed

lemma length_resize: "length (resize n xs) = n"
  by (simp add: resize_def)

lemma length_buildAtomIndices:
  "length (buildAtomIndices elemSize fAtoms aIndices) = length fAtoms"
  by (simp add: buildAtomIndices_def length_fold_append_at length_resize)

lemma buildAtomIndices_nth:
  "i < length fAtoms \<Longrightarrow>
   buildAtomIndices elemSize fAtoms aIndices ! i =
     resize (length fAtoms) aIndices ! i @ map blockArray (packTerm elemSize (fAtoms ! i))"
  unfolding buildAtomIndices_def
  by (subst fold_append_at_nth) (simp_all add: length_resize)

lemma initialize_Inr:
  assumes "forceAtoms s \<noteq> []" and "initialize context elemSize s = Inr s'"
  shows "\<exists>m src module k.
           createModule context src
             [(''PADDED_NUM_ATOMS'', intToString (getPaddedNumAtoms context))] = Some module
           \<and> getKernel context module ''computeBondedForces'' = Some k
           \<and> s' = s\<lparr>atomIndices := buildAtomIndices elemSize (forceAtoms s) (atomIndices s),
                    maxBonds := m, kernel := Some k, forceAtoms := [], forceSource := []\<rparr>"
  using assms
  by (auto simp: initialize_def Let_def kernelSource_eq
           split: if_splits option.splits sum.splits prod.splits)

section \<open>Frame of initialize and the dispatcher\<close>

lemma indexWidthOf_upload_create:
  "indexWidthOf (upload (CudaArray_create elemSize n name) v) = elemSize div 4"
  by (simp add: indexWidthOf_def getElementSize_def upload_def CudaArray_create_def)

lemma indexWidthOf_packTerm:
  "blk \<in> set (map blockArray (packTerm elemSize atoms)) \<Longrightarrow> indexWidthOf blk = elemSize div 4"
  by (auto simp: packTerm_eq indexWidthOf_upload_create split: if_splits)

text \<open>
  On an object that has not been initialized before, \<^verbatim>\<open>initialize\<close> succeeds whenever the
  element size gives at most four lanes and the compiler and the kernel lookup succeed.
\<close>

lemma initialize_succeeds:
  assumes "forceAtoms s \<noteq> []" and "atomIndices s = []" and "elemSize div 4 \<le> 4"
    and "\<And>src. createModule context src
           [(''PADDED_NUM_ATOMS'', intToString (getPaddedNumAtoms context))] = Some module"
    and "getKernel context module ''computeBondedForces'' = Some k"
  shows "initialize context elemSize s =
           Inr (s\<lparr>atomIndices := buildAtomIndices elemSize (forceAtoms s) (atomIndices s),
                  maxBonds := fold (\<lambda>f m. max m (length (forceAtoms s ! f)))
                                [0..<length (forceAtoms s)] (maxBonds s),
                  kernel := Some k, forceAtoms := [], forceSource := []\<rparr>)"
proof -
  let ?s1 = "s\<lparr>atomIndices := buildAtomIndices elemSize (forceAtoms s) (atomIndices s)\<rparr>"
  have ok: "\<not> (\<exists>f < length (forceAtoms s).
              list_ex (\<lambda>blk. 4 < indexWidthOf blk) (atomIndices ?s1 ! f))"
  proof
    assume "\<exists>f < length (forceAtoms s). list_ex (\<lambda>blk. 4 < indexWidthOf blk) (atomIndices ?s1 ! f)"
    then obtain f blk where f: "f < length (forceAtoms s)"
      and blk: "blk \<in> set (atomIndices ?s1 ! f)" and wide: "4 < indexWidthOf blk"
      unfolding list_ex_iff by blast
    have "resize (length (forceAtoms s)) (atomIndices s) ! f = []"
      using f assms(2) by (simp add: resize_def)
    with blk f have "blk \<in> set (map blockArray (packTerm elemSize (forceAtoms s ! f)))"
      by (simp add: buildAtomIndices_nth)
    then have "indexWidthOf blk = elemSize div 4" by (rule indexWidthOf_packTerm)
    with wide assms(3) show False by simp
  qed
  show ?thesis
    using assms(1) ok assms(4,5)
    by (simp add: initialize_def Let_def kernelSource_eq)
qed

text \<open>
  C8. With no term registered \<^verbatim>\<open>initialize\<close> returns at once and the object is as it
  was. With at least one term, when \<^verbatim>\<open>initialize\<close> succeeds (the kernel compiled and was
  found), the atom tuples \<^verbatim>\<open>forceAtoms\<close> and the snippets \<^verbatim>\<open>forceSource\<close> are empty
  afterwards, \<^verbatim>\<open>atomIndices\<close> holds for every term the blocks the packer built for it,
  the arguments and their types are the registered ones, and \<^verbatim>\<open>kernel\<close> is the handle
  that the context returned for the compiled module.
\<close>

theorem initialize_frame:
  "(forceAtoms s = [] \<longrightarrow> initialize context elemSize s = Inr s) \<and>
   (forceAtoms s \<noteq> [] \<and> initialize context elemSize s = Inr s' \<longrightarrow>
      forceAtoms s' = [] \<and> forceSource s' = []
      \<and> atomIndices s' = buildAtomIndices elemSize (forceAtoms s) (atomIndices s)
      \<and> length (atomIndices s') = length (forceAtoms s)
      \<and> (\<forall>i < length (forceAtoms s).
            atomIndices s' ! i =
              resize (length (forceAtoms s)) (atomIndices s) ! i
              @ map blockArray (packTerm elemSize (forceAtoms s ! i)))
      \<and> arguments s' = arguments s \<and> argTypes s' = argTypes s
      \<and> (\<exists>src module k.
            createModule context src
              [(''PADDED_NUM_ATOMS'', intToString (getPaddedNumAtoms context))] = Some module
            \<and> getKernel context module ''computeBondedForces'' = Some k
            \<and> kernel s' = Some k)
      \<and> forceGroup s' = forceGroup s \<and> prefixCode s' = prefixCode s)"
proof (rule conjI; rule impI)
  assume "forceAtoms s = []"
  then show "initialize context elemSize s = Inr s" by (simp add: initialize_def)
next
  assume a: "forceAtoms s \<noteq> [] \<and> initialize context elemSize s = Inr s'"
  then obtain m src module k where
    cm: "createModule context src
           [(''PADDED_NUM_ATOMS'', intToString (getPaddedNumAtoms context))] = Some module"
    and gk: "getKernel context module ''computeBondedForces'' = Some k"
    and s': "s' = s\<lparr>atomIndices := buildAtomIndices elemSize (forceAtoms s) (atomIndices s),
                    maxBonds := m, kernel := Some k, forceAtoms := [], forceSource := []\<rparr>"
    using initialize_Inr [of s "context" elemSize "s'"] by blast
  show "forceAtoms s' = [] \<and> forceSource s' = []
      \<and> atomIndices s' = buildAtomIndices elemSize (forceAtoms s) (atomIndices s)
      \<and> length (atomIndices s') = length (forceAtoms s)
      \<and> (\<forall>i < length (forceAtoms s).
            atomIndices s' ! i =
              resize (length (forceAtoms s)) (atomIndices s) ! i
              @ map blockArray (packTerm elemSize (forceAtoms s ! i)))
      \<and> arguments s' = arguments s \<and> argTypes s' = argTypes s
      \<and> (\<exists>src module k.
            createModule context src
              [(''PADDED_NUM_ATOMS'', intToString (getPaddedNumAtoms context))] = Some module
            \<and> getKernel context module ''computeBondedForces'' = Some k
            \<and> kernel s' = Some k)
      \<and> forceGroup s' = forceGroup s \<and> prefixCode s' = prefixCode s"
    using cm gk by (auto simp: s' length_buildAtomIndices buildAtomIndices_nth)
qed

theorem initialize_frame_witness:
  "\<exists>s'. initialize \<lparr>getPaddedNumAtoms = 32, createModule = (\<lambda>src defs. Some 1),
                     getKernel = (\<lambda>module name. Some 2)\<rparr> 4
            (addInteraction [[0, 1]] ''E'' 0 newCudaBondedUtilities) = Inr s'
        \<and> forceAtoms s' = [] \<and> forceSource s' = [] \<and> length (atomIndices s') = 1
        \<and> arguments s' = [] \<and> kernel s' = Some 2"
proof -
  let ?c = "\<lparr>getPaddedNumAtoms = 32, createModule = (\<lambda>src defs. Some 1),
             getKernel = (\<lambda>module name. Some 2)\<rparr>"
  let ?s = "addInteraction [[0, 1]] ''E'' 0 newCudaBondedUtilities"
  have fa: "forceAtoms ?s = [[[0, 1]]]" and ai: "atomIndices ?s = []" and ar: "arguments ?s = []"
    by (simp_all add: addInteraction_def newCudaBondedUtilities_def)
  obtain s' where init: "initialize ?c 4 ?s = Inr s'"
    using initialize_succeeds [of ?s 4 ?c 1 2] fa ai by auto
  from initialize_frame [of ?s ?c 4 s'] init fa ar show ?thesis
    by auto
qed

text \<open>
  C2. The specification has every call of \<^verbatim>\<open>computeInteractions\<close> launch the compiled
  kernel. In the source the whole body of the function is commented out: for every state
  and every group mask the call makes no launch and leaves the object unchanged. So it is
  after a successful \<^verbatim>\<open>initialize\<close> with one registered term of one bond, which has
  stored the kernel handle and the bond count 1: the call with the term's group bit set
  launches nothing.
\<close>

theorem computeInteractions_launches_nothing:
  "computeInteractions groups s = (s, [])
   \<and> (\<exists>s'. initialize \<lparr>getPaddedNumAtoms = 32, createModule = (\<lambda>src defs. Some 1),
                         getKernel = (\<lambda>module name. Some 2)\<rparr> 4
                (addInteraction [[0, 1]] ''E'' 0 newCudaBondedUtilities) = Inr s'
            \<and> kernel s' = Some 2 \<and> maxBonds s' = 1
            \<and> computeInteractions 1 s' = (s', []))"
proof
  show "computeInteractions groups s = (s, [])"
    by (simp add: computeInteractions_def)
next
  let ?c = "\<lparr>getPaddedNumAtoms = 32, createModule = (\<lambda>src defs. Some 1),
             getKernel = (\<lambda>module name. Some 2)\<rparr>"
  let ?s = "addInteraction [[0, 1]] ''E'' 0 newCudaBondedUtilities"
  let ?s' = "?s\<lparr>atomIndices := buildAtomIndices 4 (forceAtoms ?s) (atomIndices ?s),
                  maxBonds := fold (\<lambda>f m. max m (length (forceAtoms ?s ! f)))
                                [0..<length (forceAtoms ?s)] (maxBonds ?s),
                  kernel := Some 2, forceAtoms := [], forceSource := []\<rparr>"
  have fa: "forceAtoms ?s = [[[0, 1]]]" and ai: "atomIndices ?s = []" and mb: "maxBonds ?s = 0"
    by (simp_all add: addInteraction_def newCudaBondedUtilities_def)
  have init: "initialize ?c 4 ?s = Inr ?s'"
    by (rule initialize_succeeds [where module = 1]) (simp_all add: fa ai)
  have "kernel ?s' = Some 2" by simp
  moreover have "maxBonds ?s' = 1" by (simp add: fa mb)
  moreover have "computeInteractions 1 ?s' = (?s', [])" by (simp add: computeInteractions_def)
  ultimately show "\<exists>s'. initialize ?c 4 ?s = Inr s'
            \<and> kernel s' = Some 2 \<and> maxBonds s' = 1
            \<and> computeInteractions 1 s' = (s', [])"
    using init by blast
qed

section \<open>The emitted force scatter\<close>

lemma set_showNat_digit: "c \<in> set (showNat n) \<Longrightarrow> c \<in> set ''0123456789''"
  using showNat_digits by blast

lemma showNat_small: "n < 10 \<Longrightarrow> showNat n = [digitChar n]"
  by (subst showNat.simps) simp

lemma groupMask_0: "groupMask 0 = 1"
  by (simp add: groupMask_def)

text \<open>
  C1. The specification has the per-term body add the components x, y and z of the force
  to the three planes of the force buffer. The text that \<^verbatim>\<open>createForceSource\<close> returns for
  a term of arity 1 with one bond, packed into one index array of element size 4, is
  shown in full: all three \<^verbatim>\<open>atomicAdd\<close> lines, at the offsets 0, \<^verbatim>\<open>PADDED_NUM_ATOMS\<close>
  and \<^verbatim>\<open>PADDED_NUM_ATOMS*2\<close>, add \<^verbatim>\<open>force.x\<close>. For no atom do the emitted scatter lines
  contain the letter y or z at all.
\<close>

theorem scatter_adds_force_x_to_every_plane:
  "createForceSource 0 1 1 0 snippet
     (newCudaBondedUtilities
        \<lparr>atomIndices := [[upload (CudaArray_create 4 4 ''bondedIndices'') v]]\<rparr>) =
   Inr (newCudaBondedUtilities
        \<lparr>atomIndices := [[upload (CudaArray_create 4 4 ''bondedIndices'') v]], maxBonds := 1\<rparr>,
     ''if ((groups&1) != 0)\<newline>''
     @ ''for (unsigned int index = blockIdx.x*blockDim.x+threadIdx.x; index < 1; index += blockDim.x*gridDim.x) {\<newline>''
     @ ''    unsigned int atoms0 = atomIndices0_0[index];\<newline>''
     @ ''    unsigned int buffers = bufferIndices0[index];\<newline>''
     @ ''    unsigned int atom1 = atoms0;\<newline>''
     @ ''    real4 pos1 = posq[atom1];\<newline>''
     @ snippet @ ''\<newline>''
     @ ''    atomicAdd(&forceBuffer[atom1], (long) (force.x*0xFFFFFFFF));\<newline>''
     @ ''    atomicAdd(&forceBuffer[atom1+PADDED_NUM_ATOMS], (long) (force.x*0xFFFFFFFF));\<newline>''
     @ ''    atomicAdd(&forceBuffer[atom1+PADDED_NUM_ATOMS*2], (long) (force.x*0xFFFFFFFF));\<newline>''
     @ ''}\<newline>'')
   \<and> CHR ''y'' \<notin> set (scatterAtom i) \<and> CHR ''z'' \<notin> set (scatterAtom i)"
proof (intro conjI)
  show "createForceSource 0 1 1 0 snippet
     (newCudaBondedUtilities
        \<lparr>atomIndices := [[upload (CudaArray_create 4 4 ''bondedIndices'') v]]\<rparr>) =
   Inr (newCudaBondedUtilities
        \<lparr>atomIndices := [[upload (CudaArray_create 4 4 ''bondedIndices'') v]], maxBonds := 1\<rparr>,
     ''if ((groups&1) != 0)\<newline>''
     @ ''for (unsigned int index = blockIdx.x*blockDim.x+threadIdx.x; index < 1; index += blockDim.x*gridDim.x) {\<newline>''
     @ ''    unsigned int atoms0 = atomIndices0_0[index];\<newline>''
     @ ''    unsigned int buffers = bufferIndices0[index];\<newline>''
     @ ''    unsigned int atom1 = atoms0;\<newline>''
     @ ''    real4 pos1 = posq[atom1];\<newline>''
     @ snippet @ ''\<newline>''
     @ ''    atomicAdd(&forceBuffer[atom1], (long) (force.x*0xFFFFFFFF));\<newline>''
     @ ''    atomicAdd(&forceBuffer[atom1+PADDED_NUM_ATOMS], (long) (force.x*0xFFFFFFFF));\<newline>''
     @ ''    atomicAdd(&forceBuffer[atom1+PADDED_NUM_ATOMS*2], (long) (force.x*0xFFFFFFFF));\<newline>''
     @ ''}\<newline>'')"
    by (simp add: createForceSource_def Let_def newCudaBondedUtilities_def
          forceSourceText_def indexWidthOf_upload_create indexTypeOf_def suffix1_def
          unpackLane_def scatterAtom_def showNat_small digitChar_def showInt_def groupMask_0)
  show "CHR ''y'' \<notin> set (scatterAtom i)"
    by (auto simp: scatterAtom_def dest: set_showNat_digit)
  show "CHR ''z'' \<notin> set (scatterAtom i)"
    by (auto simp: scatterAtom_def dest: set_showNat_digit)
qed

section \<open>Packing followed by unpacking\<close>

lemma fillIndexVec_2_4:
  "fillIndexVec [[a, b], [c, d]] 0 4 =
     [Some (word_of_int a), Some (word_of_int b), None, None,
      Some (word_of_int c), Some (word_of_int d), None, None]"
  by (simp add: fillIndexVec_def fillBond_def readAtom_def upt_conv_Cons numeral_eq_Suc)

lemma fillIndexVec_2_5:
  "w = 5 \<Longrightarrow>
   fillIndexVec [[a0, a1, a2, a3, a4], [b0, b1, b2, b3, b4]] 0 w =
     map (\<lambda>v. Some (word_of_int v)) [a0, a1, a2, a3, a4, b0, b1, b2, b3, b4]"
  by (simp add: fillIndexVec_def fillBond_def readAtom_def upt_conv_Cons numeral_eq_Suc)

text \<open>
  C6. The specification has packing followed by unpacking give back the atom index of
  every bond and slot. The packer lays the cells out with the stride \<^verbatim>\<open>width\<close>, the
  larger of the arity and 4; the emitted kernel unpacks with the lane count
  \<^verbatim>\<open>getElementSize()/4\<close> of the array, which \<^verbatim>\<open>initialize\<close> created as an array of
  \<^verbatim>\<open>unsigned int\<close>. With the element size 4 of \<^verbatim>\<open>unsigned int\<close> and the two bond records
  \<open>[7, 8]\<close> and \<open>[9, 10]\<close> the buffer is \<open>7, 8, _, _, 9, 10, _, _\<close>, the emitted text
  declares \<^verbatim>\<open>atom1\<close> only, and for bond 1 it is given cell 1, which holds 8, not 9;
  \<^verbatim>\<open>atom2\<close> is never unpacked. With the element size 16 of a four-lane vector and two
  bond records of arity 5 the stride is 5 but the kernel reads four lanes from cell 4,
  which gives bond 1 the atoms \<open>4, 5, 6, 7\<close> in place of \<open>5, 6, 7, 8\<close>, and no fifth atom.
\<close>

theorem unpacking_does_not_recover_atoms:
  "map (\<lambda>b. contents (blockArray b)) (packTerm 4 [[7, 8], [9, 10]]) =
     [[Some 7, Some 8, None, None, Some 9, Some 10, None, None]]
   \<and> unpackBlocks 0 (map blockArray (packTerm 4 [[7, 8], [9, 10]])) 0 0 =
       ''    unsigned int atoms0 = atomIndices0_0[index];\<newline>''
       @ ''    unsigned int buffers = bufferIndices0[index];\<newline>''
       @ ''    unsigned int atom1 = atoms0;\<newline>''
       @ ''    real4 pos1 = posq[atom1];\<newline>''
   \<and> unpackedAtoms (map blockArray (packTerm 4 [[7, 8], [9, 10]])) 1 0 = [(1, Some 8)]
   \<and> map (\<lambda>b. contents (blockArray b)) (packTerm 16 [[0, 1, 2, 3, 4], [5, 6, 7, 8, 9]]) =
       [[Some 0, Some 1, Some 2, Some 3, Some 4, Some 5, Some 6, Some 7, Some 8, Some 9]]
   \<and> unpackedAtoms (map blockArray (packTerm 16 [[0, 1, 2, 3, 4], [5, 6, 7, 8, 9]])) 1 0 =
       [(1, Some 4), (2, Some 5), (3, Some 6), (4, Some 7)]"
proof (intro conjI)
  show "map (\<lambda>b. contents (blockArray b)) (packTerm 4 [[7, 8], [9, 10]]) =
     [[Some 7, Some 8, None, None, Some 9, Some 10, None, None]]"
    by (simp add: packTerm_eq contents_upload fillIndexVec_2_4)
  show "unpackBlocks 0 (map blockArray (packTerm 4 [[7, 8], [9, 10]])) 0 0 =
       ''    unsigned int atoms0 = atomIndices0_0[index];\<newline>''
       @ ''    unsigned int buffers = bufferIndices0[index];\<newline>''
       @ ''    unsigned int atom1 = atoms0;\<newline>''
       @ ''    real4 pos1 = posq[atom1];\<newline>''"
    by (simp add: packTerm_eq indexWidthOf_upload_create indexTypeOf_def suffix1_def
          unpackLane_def showNat_small digitChar_def)
  show "unpackedAtoms (map blockArray (packTerm 4 [[7, 8], [9, 10]])) 1 0 = [(1, Some 8)]"
    by (simp add: packTerm_eq indexWidthOf_upload_create cellAt_def contents_upload
          fillIndexVec_2_4)
  show "map (\<lambda>b. contents (blockArray b)) (packTerm 16 [[0, 1, 2, 3, 4], [5, 6, 7, 8, 9]]) =
       [[Some 0, Some 1, Some 2, Some 3, Some 4, Some 5, Some 6, Some 7, Some 8, Some 9]]"
    by (simp add: packTerm_eq contents_upload fillIndexVec_2_5)
  show "unpackedAtoms (map blockArray (packTerm 16 [[0, 1, 2, 3, 4], [5, 6, 7, 8, 9]])) 1 0 =
       [(1, Some 4), (2, Some 5), (3, Some 6), (4, Some 7)]"
    by (simp add: packTerm_eq indexWidthOf_upload_create cellAt_def contents_upload
          fillIndexVec_2_5 upt_conv_Cons)
qed

section \<open>Occurrences of a name: how they compose\<close>

lemma everyOccurrence_absent: "\<not> sublist p t \<Longrightarrow> everyOccurrence P p t"
  by (auto simp: everyOccurrence_def sublist_def)

lemma everyOccurrence_False_iff: "everyOccurrence (\<lambda>pre. False) p t \<longleftrightarrow> \<not> sublist p t"
  by (auto simp: everyOccurrence_def sublist_def)

lemma sublist_first_char: "sublist (c # p) t \<Longrightarrow> c \<in> set t"
  using set_mono_sublist [of "c # p" t] by simp

lemma everyOccurrence_no_first_char: "c \<notin> set t \<Longrightarrow> everyOccurrence P (c # p) t"
  by (rule everyOccurrence_absent) (blast dest: sublist_first_char)

text \<open>An occurrence in \<open>a @ b\<close> lies in \<open>a\<close>, lies in \<open>b\<close>, or runs across the joint.\<close>

lemma occurrence_in_append:
  assumes "a @ b = pre @ p @ post"
  shows "(\<exists>post'. a = pre @ p @ post')
       \<or> (\<exists>pre'. pre = a @ pre' \<and> b = pre' @ p @ post)
       \<or> (\<exists>us vs. us \<noteq> [] \<and> vs \<noteq> [] \<and> p = us @ vs \<and> a = pre @ us \<and> b = vs @ post)"
proof -
  from assms consider us where "a = pre @ us" "us @ b = p @ post"
    | us where "a @ us = pre" "b = us @ p @ post"
    by (auto simp: append_eq_append_conv2)
  then show ?thesis
  proof cases
    case 1
    from 1(2) consider vs where "us = p @ vs" "vs @ b = post"
      | vs where "us @ vs = p" "b = vs @ post"
      by (auto simp: append_eq_append_conv2)
    then show ?thesis
    proof cases
      case 1
      with \<open>a = pre @ us\<close> show ?thesis by auto
    next
      case 2
      show ?thesis
      proof (cases "us = [] \<or> vs = []")
        case True
        then show ?thesis
        proof
          assume "us = []"
          with 2 \<open>a = pre @ us\<close> have "pre = a @ []" "b = [] @ p @ post" by simp_all
          then show ?thesis by blast
        next
          assume "vs = []"
          with 2 \<open>a = pre @ us\<close> have "a = pre @ p @ []" by simp
          then show ?thesis by blast
        qed
      next
        case False
        with 2 \<open>a = pre @ us\<close> show ?thesis by auto
      qed
    qed
  next
    case 2
    then show ?thesis by auto
  qed
qed

lemma everyOccurrence_append_closed:
  assumes a: "everyOccurrence P p a" and b: "everyOccurrence P p b"
    and mono: "\<And>x y. P y \<Longrightarrow> P (x @ y)"
    and sep: "a = [] \<or> last a \<notin> set p"
  shows "everyOccurrence P p (a @ b)"
  unfolding everyOccurrence_def
proof (intro allI impI)
  fix pre post
  assume "a @ b = pre @ p @ post"
  from occurrence_in_append [OF this] show "P pre"
  proof (elim disjE exE conjE)
    fix post' assume "a = pre @ p @ post'"
    with a show ?thesis by (auto simp: everyOccurrence_def)
  next
    fix pre' assume "pre = a @ pre'" "b = pre' @ p @ post"
    with b have "P pre'" by (auto simp: everyOccurrence_def)
    with \<open>pre = a @ pre'\<close> show ?thesis by (simp add: mono)
  next
    fix us vs assume "us \<noteq> []" "vs \<noteq> []" "p = us @ vs" "a = pre @ us" "b = vs @ post"
    then have "a \<noteq> []" "last a = last us" by simp_all
    moreover have "last us \<in> set p" using \<open>us \<noteq> []\<close> \<open>p = us @ vs\<close> by simp
    ultimately show ?thesis using sep by simp
  qed
qed

lemma everyOccurrence_append_opens:
  assumes a: "everyOccurrence P p a" and b: "everyOccurrence P p b"
    and mono: "\<And>x y. P y \<Longrightarrow> P (x @ y)"
    and sep: "b = [] \<or> hd b \<notin> set p"
  shows "everyOccurrence P p (a @ b)"
  unfolding everyOccurrence_def
proof (intro allI impI)
  fix pre post
  assume "a @ b = pre @ p @ post"
  from occurrence_in_append [OF this] show "P pre"
  proof (elim disjE exE conjE)
    fix post' assume "a = pre @ p @ post'"
    with a show ?thesis by (auto simp: everyOccurrence_def)
  next
    fix pre' assume "pre = a @ pre'" "b = pre' @ p @ post"
    with b have "P pre'" by (auto simp: everyOccurrence_def)
    with \<open>pre = a @ pre'\<close> show ?thesis by (simp add: mono)
  next
    fix us vs assume "us \<noteq> []" "vs \<noteq> []" "p = us @ vs" "a = pre @ us" "b = vs @ post"
    then have "b \<noteq> []" "hd b = hd vs" by simp_all
    moreover have "hd vs \<in> set p" using \<open>vs \<noteq> []\<close> \<open>p = us @ vs\<close> by simp
    ultimately show ?thesis using sep by simp
  qed
qed

lemma closedLine_Nil: "p \<noteq> [] \<Longrightarrow> closedLine P p []"
  by (simp add: closedLine_def everyOccurrence_def)

lemma closedLine_append:
  assumes "closedLine P p a" "closedLine P p b" "\<And>x y. P y \<Longrightarrow> P (x @ y)"
  shows "closedLine P p (a @ b)"
proof -
  have "everyOccurrence P p (a @ b)"
    using assms by (intro everyOccurrence_append_closed) (auto simp: closedLine_def)
  moreover have "a @ b = [] \<or> last (a @ b) \<notin> set p"
    using assms(1,2) by (cases "b = []") (auto simp: closedLine_def)
  ultimately show ?thesis by (simp add: closedLine_def)
qed

lemma closedLine_concat_map:
  assumes "p \<noteq> []" "\<And>x. x \<in> set xs \<Longrightarrow> closedLine P p (f x)" "\<And>x y. P y \<Longrightarrow> P (x @ y)"
  shows "closedLine P p (concat (map f xs))"
  using assms(2)
proof (induction xs)
  case Nil
  show ?case using assms(1) by (simp add: closedLine_Nil)
next
  case (Cons x xs)
  then show ?case using assms(3) by (simp add: closedLine_append)
qed

lemma closedLine_no_first_char:
  "c \<notin> set t \<Longrightarrow> t = [] \<or> last t \<notin> set (c # p) \<Longrightarrow> closedLine P (c # p) t"
  by (simp add: closedLine_def everyOccurrence_no_first_char)

text \<open>The one place where the name is meant to stand: after \<open>q\<close>, and nowhere else in the line.\<close>

lemma occurrence_at_start_only:
  assumes "c \<notin> set p'" "c \<notin> set B" "(c # p') @ B = us @ (c # p') @ post"
  shows "us = []"
proof (cases us)
  case Nil
  then show ?thesis .
next
  case (Cons x us')
  with assms(3) have "p' @ B = us' @ (c # p') @ post" by simp
  then have "c \<in> set (p' @ B)" by (metis in_set_conv_decomp append_assoc append_Cons)
  with assms(1,2) show ?thesis by simp
qed

lemma everyOccurrence_marked:
  assumes clean: "\<not> sublist (c # p') (a @ q)" and q: "q \<noteq> []" "last q \<notin> set (c # p')"
    and c: "c \<notin> set p'" "c \<notin> set B"
  shows "everyOccurrence (suffix q) (c # p') ((a @ q) @ (c # p') @ B)"
  unfolding everyOccurrence_def
proof (intro allI impI)
  fix pre post
  assume "(a @ q) @ (c # p') @ B = pre @ (c # p') @ post"
  from occurrence_in_append [OF this] show "suffix q pre"
  proof (elim disjE exE conjE)
    fix post' assume "a @ q = pre @ (c # p') @ post'"
    then have "sublist (c # p') (a @ q)" by (auto simp: sublist_def)
    with clean show ?thesis by simp
  next
    fix pre' assume pre: "pre = (a @ q) @ pre'" and "(c # p') @ B = pre' @ (c # p') @ post"
    with c have "pre' = []" by (intro occurrence_at_start_only [of c p' B pre' post]) 
    with pre show ?thesis by (simp add: suffix_def)
  next
    fix us vs assume "us \<noteq> []" "vs \<noteq> []" "c # p' = us @ vs" "a @ q = pre @ us"
    then have "last (a @ q) = last us" by simp
    moreover have "last us \<in> set (c # p')"
      using \<open>us \<noteq> []\<close> \<open>c # p' = us @ vs\<close> by (metis Un_iff last_in_set set_append)
    ultimately show ?thesis using q by simp
  qed
qed

section \<open>The name \<^verbatim>\<open>bufferIndices\<close> in the kernel source\<close>

lemma b_notin_showNat: "CHR ''b'' \<notin> set (showNat n)"
  by (auto dest: set_showNat_digit)

lemma last_showNat_digit: "last (showNat n) \<in> set ''0123456789''"
  using showNat_nonempty [of n] showNat_digits [of n] last_in_set [of "showNat n"] by blast

lemma set_showInt: "c \<in> set (showInt i) \<Longrightarrow> c \<in> set ''-0123456789''"
  by (auto simp: showInt_def dest: set_showNat_digit split: if_splits)

lemma b_notin_indexTypeOf: "CHR ''b'' \<notin> set (indexTypeOf w)"
  by (auto simp: indexTypeOf_def intToString_def dest: set_showInt)

lemma mono_suffix: "suffix q y \<Longrightarrow> suffix q (x @ y)"
  by (rule suffix_appendI)

lemma lit_for1: "\<not> sublist ''bufferIndices'' ''for (unsigned int index = blockIdx.x*blockDim.x+threadIdx.x; index < ''"
  by (simp add: sublist_Cons_right)

lemma lit_for2: "\<not> sublist ''bufferIndices'' ''; index += blockDim.x*gridDim.x) {\<newline>''"
  by (simp add: sublist_Cons_right)

lemma lit_epilogue: "\<not> sublist ''bufferIndices'' kernelEpilogue"
  by (simp add: kernelEpilogue_def sublist_Cons_right)

lemma lit_head: "\<not> sublist ''bufferIndices'' signatureHead"
  by (simp add: signatureHead_def sublist_Cons_right)

lemma lit_buffers: "\<not> sublist ''bufferIndices'' ''buffers = ''"
  by (simp add: sublist_Cons_right)

lemma closedLine_no_b:
  "CHR ''b'' \<notin> set t \<Longrightarrow> t = [] \<or> last t \<notin> set ''bufferIndices'' \<Longrightarrow>
   closedLine P ''bufferIndices'' t"
  by (rule closedLine_no_first_char)

lemma closedLine_clean:
  "\<not> sublist p t \<Longrightarrow> t = [] \<or> last t \<notin> set p \<Longrightarrow> closedLine P p t"
  by (simp add: closedLine_def everyOccurrence_absent)

lemma closedLine_showNat: "closedLine P ''bufferIndices'' (showNat n)"
proof (rule closedLine_no_b)
  show "CHR ''b'' \<notin> set (showNat n)" by (rule b_notin_showNat)
  show "showNat n = [] \<or> last (showNat n) \<notin> set ''bufferIndices''"
    using last_showNat_digit [of n] by auto
qed

lemma closedLine_if_line:
  "closedLine P ''bufferIndices'' (''if ((groups&'' @ showInt m @ '') != 0)\<newline>'')"
  by (rule closedLine_no_b) (auto dest: set_showInt)

lemma closedLine_for_line:
  assumes "\<And>x y. P y \<Longrightarrow> P (x @ y)"
  shows "closedLine P ''bufferIndices''
     (''for (unsigned int index = blockIdx.x*blockDim.x+threadIdx.x; index < ''
       @ showNat numBonds @ ''; index += blockDim.x*gridDim.x) {\<newline>'')"
proof (intro closedLine_append assms)
  show "closedLine P ''bufferIndices''
      ''for (unsigned int index = blockIdx.x*blockDim.x+threadIdx.x; index < ''"
    by (rule closedLine_clean [OF lit_for1]) simp
  show "closedLine P ''bufferIndices'' (showNat numBonds)" by (rule closedLine_showNat)
  show "closedLine P ''bufferIndices'' ''; index += blockDim.x*gridDim.x) {\<newline>''"
    by (rule closedLine_clean [OF lit_for2]) simp
qed

lemma b_notin_suffix4: "j < 4 \<Longrightarrow> CHR ''b'' \<notin> set (suffix4 ! j)"
proof -
  assume "j < 4"
  then have "j \<in> {0, 1, 2, 3}" by auto
  then show ?thesis by (auto simp: suffix4_def)
qed

lemma b_notin_suffix:
  assumes "j < indexWidth" "indexWidth \<le> 4"
  shows "CHR ''b'' \<notin> set ((if indexWidth = 1 then suffix1 else suffix4) ! j)"
proof (cases "indexWidth = 1")
  case True
  with assms(1) show ?thesis by (simp add: suffix1_def)
next
  case False
  from assms have "j < 4" by simp
  with False show ?thesis by (simp add: b_notin_suffix4)
qed

lemma closedLine_unpackLane:
  assumes "CHR ''b'' \<notin> set (sfx ! j)"
  shows "closedLine P ''bufferIndices'' (unpackLane i startAtom sfx j)"
  by (rule closedLine_no_b) (use assms in \<open>auto simp: unpackLane_def dest: set_showNat_digit\<close>)

lemma closedLine_atoms_line:
  "closedLine P ''bufferIndices''
     (''    '' @ indexTypeOf w @ '' atoms'' @ showNat i @ '' = atomIndices'' @ showNat forceIndex
        @ ''_'' @ showNat i @ ''[index];\<newline>'')"
  by (rule closedLine_no_b) (use b_notin_indexTypeOf [of w] in \<open>auto dest: set_showNat_digit\<close>)

text \<open>
  The line that reads \<^verbatim>\<open>bufferIndices\<close>: the name occurs once in it, as the initializer
  of the local \<^verbatim>\<open>buffers\<close>.
\<close>

lemma closedLine_buffers_line:
  "closedLine (suffix '' buffers = '') ''bufferIndices''
     (''    '' @ indexTypeOf w @ '' buffers = bufferIndices'' @ showNat forceIndex
        @ ''[index];\<newline>'')"
proof -
  let ?a = "''    '' @ indexTypeOf w"
  let ?q = "'' buffers = ''"
  let ?B = "showNat forceIndex @ ''[index];\<newline>''"
  let ?line = "''    '' @ indexTypeOf w @ '' buffers = bufferIndices'' @ showNat forceIndex
        @ ''[index];\<newline>''"
  have nb: "CHR ''b'' \<notin> set ?a" using b_notin_indexTypeOf [of w] by simp
  have "everyOccurrence (\<lambda>pre. False) ''bufferIndices'' (?a @ ?q)"
  proof (rule everyOccurrence_append_opens)
    show "everyOccurrence (\<lambda>pre. False) ''bufferIndices'' ?a"
      using nb by (rule everyOccurrence_no_first_char)
    show "everyOccurrence (\<lambda>pre. False) ''bufferIndices'' ?q"
      by (rule everyOccurrence_absent) (simp add: sublist_Cons_right)
    show "?q = [] \<or> hd ?q \<notin> set ''bufferIndices''" by simp
  qed simp
  then have clean: "\<not> sublist ''bufferIndices'' (?a @ ?q)"
    unfolding everyOccurrence_False_iff .
  have nB: "CHR ''b'' \<notin> set ?B" by (auto dest: set_showNat_digit)
  have "everyOccurrence (suffix ?q) ''bufferIndices'' ((?a @ ?q) @ ''bufferIndices'' @ ?B)"
    by (rule everyOccurrence_marked [OF clean]) (use nB in simp_all)
  moreover have "(?a @ ?q) @ ''bufferIndices'' @ ?B = ?line" by simp
  ultimately have "everyOccurrence (suffix ?q) ''bufferIndices'' ?line" by (simp only:)
  then show ?thesis by (simp add: closedLine_def)
qed

lemma closedLine_lanes:
  assumes "indexWidth \<le> 4" "\<And>x y. P y \<Longrightarrow> P (x @ y)"
  shows "closedLine P ''bufferIndices''
     (concat (map (unpackLane i startAtom (if indexWidth = 1 then suffix1 else suffix4))
        [0..<indexWidth]))"
proof (rule closedLine_concat_map)
  fix j assume "j \<in> set [0..<indexWidth]"
  then have "j < indexWidth" by simp
  then have "CHR ''b'' \<notin> set ((if indexWidth = 1 then suffix1 else suffix4) ! j)"
    using assms(1) by (rule b_notin_suffix)
  then show "closedLine P ''bufferIndices''
      (unpackLane i startAtom (if indexWidth = 1 then suffix1 else suffix4) j)"
    by (rule closedLine_unpackLane)
qed (simp, rule assms(2))

lemma closedLine_unpackBlocks:
  assumes "\<forall>blk \<in> set blocks. indexWidthOf blk \<le> 4"
  shows "closedLine (suffix '' buffers = '') ''bufferIndices''
           (unpackBlocks forceIndex blocks i startAtom)"
  using assms
proof (induction blocks arbitrary: i startAtom)
  case Nil
  show ?case by (simp add: closedLine_Nil)
next
  case (Cons blk blks i startAtom)
  have w: "indexWidthOf blk \<le> 4" using Cons.prems by simp
  have rest: "closedLine (suffix '' buffers = '') ''bufferIndices''
           (unpackBlocks forceIndex blks (i + 1) (startAtom + indexWidthOf blk))"
    using Cons.prems by (intro Cons.IH) simp
  have eq: "unpackBlocks forceIndex (blk # blks) i startAtom =
      (''    '' @ indexTypeOf (indexWidthOf blk) @ '' atoms'' @ showNat i @ '' = atomIndices''
         @ showNat forceIndex @ ''_'' @ showNat i @ ''[index];\<newline>'')
      @ (''    '' @ indexTypeOf (indexWidthOf blk) @ '' buffers = bufferIndices''
         @ showNat forceIndex @ ''[index];\<newline>'')
      @ concat (map (unpackLane i startAtom
                       (if indexWidthOf blk = 1 then suffix1 else suffix4))
                  [0..<indexWidthOf blk])
      @ unpackBlocks forceIndex blks (i + 1) (startAtom + indexWidthOf blk)"
    by (simp add: Let_def)
  have lanes: "closedLine (suffix '' buffers = '') ''bufferIndices''
      (concat (map (unpackLane i startAtom
                       (if indexWidthOf blk = 1 then suffix1 else suffix4))
                  [0..<indexWidthOf blk]))"
    using w by (rule closedLine_lanes) (rule mono_suffix)
  show ?case
    unfolding eq
    by (intro closedLine_append closedLine_atoms_line closedLine_buffers_line
          lanes rest mono_suffix)
qed

lemma closedLine_scatterAtom: "closedLine P ''bufferIndices'' (scatterAtom i)"
  by (rule closedLine_no_b) (auto simp: scatterAtom_def dest: set_showNat_digit)

lemma closedLine_snippet:
  assumes "\<not> sublist ''bufferIndices'' computeForce"
  shows "closedLine (suffix '' buffers = '') ''bufferIndices'' (computeForce @ ''\<newline>'')"
proof -
  have "everyOccurrence (suffix '' buffers = '') ''bufferIndices'' (computeForce @ ''\<newline>'')"
  proof (rule everyOccurrence_append_opens)
    show "everyOccurrence (suffix '' buffers = '') ''bufferIndices'' computeForce"
      using assms by (rule everyOccurrence_absent)
    show "everyOccurrence (suffix '' buffers = '') ''bufferIndices'' ''\<newline>''"
      by (rule everyOccurrence_absent) (simp add: sublist_Cons_right)
    show "''\<newline>'' = [] \<or> hd ''\<newline>'' \<notin> set ''bufferIndices''" by simp
  qed (rule mono_suffix)
  then show ?thesis by (simp add: closedLine_def)
qed

lemma closedLine_forceSourceText:
  assumes "\<forall>blk \<in> set blocks. indexWidthOf blk \<le> 4"
    and "\<not> sublist ''bufferIndices'' computeForce"
  shows "closedLine (suffix '' buffers = '') ''bufferIndices''
           (forceSourceText blocks forceIndex numBonds numAtoms grp computeForce)"
proof -
  have eq: "forceSourceText blocks forceIndex numBonds numAtoms grp computeForce =
      (''if ((groups&'' @ showInt (groupMask grp) @ '') != 0)\<newline>'')
      @ (''for (unsigned int index = blockIdx.x*blockDim.x+threadIdx.x; index < ''
         @ showNat numBonds @ ''; index += blockDim.x*gridDim.x) {\<newline>'')
      @ unpackBlocks forceIndex blocks 0 0
      @ (computeForce @ ''\<newline>'')
      @ concat (map scatterAtom [0..<numAtoms])
      @ ''}\<newline>''"
    by (simp add: forceSourceText_def)
  have l2: "closedLine (suffix '' buffers = '') ''bufferIndices''
     (''for (unsigned int index = blockIdx.x*blockDim.x+threadIdx.x; index < ''
       @ showNat numBonds @ ''; index += blockDim.x*gridDim.x) {\<newline>'')"
    by (rule closedLine_for_line) (rule mono_suffix)
  have l3: "closedLine (suffix '' buffers = '') ''bufferIndices'' (unpackBlocks forceIndex blocks 0 0)"
    using assms(1) by (rule closedLine_unpackBlocks)
  have l4: "closedLine (suffix '' buffers = '') ''bufferIndices'' (computeForce @ ''\<newline>'')"
    using assms(2) by (rule closedLine_snippet)
  have l5: "closedLine (suffix '' buffers = '') ''bufferIndices''
          (concat (map scatterAtom [0..<numAtoms]))"
    by (rule closedLine_concat_map) (simp_all add: closedLine_scatterAtom mono_suffix)
  have l6: "closedLine (suffix '' buffers = '') ''bufferIndices'' ''}\<newline>''"
    by (rule closedLine_no_b) simp_all
  show ?thesis
    unfolding eq
    by (intro closedLine_if_line l2 l3 l4 l5 l6 closedLine_append mono_suffix)
qed

lemma closedLine_termText:
  assumes "\<forall>blk \<in> set (atomIndices s ! f). indexWidthOf blk \<le> 4"
    and "\<not> sublist ''bufferIndices'' (forceSource s ! f)"
  shows "closedLine (suffix '' buffers = '') ''bufferIndices'' (termText s f)"
  unfolding termText_def using assms by (rule closedLine_forceSourceText)

lemma everyOccurrence_kernel_body:
  assumes "\<forall>f < n. \<forall>blk \<in> set (atomIndices s ! f). indexWidthOf blk \<le> 4"
    and "\<forall>f < n. \<not> sublist ''bufferIndices'' (forceSource s ! f)"
  shows "everyOccurrence (suffix '' buffers = '') ''bufferIndices''
           (''real energy = 0;\<newline>'' @ concat (map (termText s) [0..<n]) @ kernelEpilogue)"
proof -
  have l1: "closedLine (suffix '' buffers = '') ''bufferIndices'' ''real energy = 0;\<newline>''"
    by (rule closedLine_no_b) simp_all
  have l2: "closedLine (suffix '' buffers = '') ''bufferIndices'' (concat (map (termText s) [0..<n]))"
  proof (rule closedLine_concat_map)
    fix f assume "f \<in> set [0..<n]"
    then have "f < n" by simp
    with assms show "closedLine (suffix '' buffers = '') ''bufferIndices'' (termText s f)"
      by (intro closedLine_termText) simp_all
  qed (simp, rule mono_suffix)
  have l3: "closedLine (suffix '' buffers = '') ''bufferIndices'' kernelEpilogue"
    by (rule closedLine_clean [OF lit_epilogue]) (simp add: kernelEpilogue_def)
  have "closedLine (suffix '' buffers = '') ''bufferIndices''
           (''real energy = 0;\<newline>'' @ concat (map (termText s) [0..<n]) @ kernelEpilogue)"
    by (intro l1 l2 l3 closedLine_append mono_suffix)
  then show ?thesis by (simp add: closedLine_def)
qed

text \<open>The signature: every parameter the synthesizer declares, and the caller's type names.\<close>

lemma closedLine_indexParam: "closedLine P ''bufferIndices'' (indexParam aIndices force i)"
proof (rule closedLine_no_b)
  show "CHR ''b'' \<notin> set (indexParam aIndices force i)"
    using b_notin_indexTypeOf [of "indexWidthOf (aIndices ! force ! i)"]
    by (auto simp: indexParam_def Let_def dest: set_showNat_digit)
  show "indexParam aIndices force i = [] \<or> last (indexParam aIndices force i) \<notin> set ''bufferIndices''"
    using last_showNat_digit [of i] showNat_nonempty [of i]
    by (auto simp: indexParam_def Let_def)
qed

lemma hd_indexParam: "hd (indexParam aIndices force i) = CHR '',''"
  by (simp add: indexParam_def Let_def)

lemma closedLine_indexParams:
  assumes "\<And>x y. P y \<Longrightarrow> P (x @ y)"
  shows "closedLine P ''bufferIndices'' (indexParams aIndices numForces)"
  unfolding indexParams_def
  by (intro closedLine_concat_map closedLine_indexParam assms) simp_all

lemma closedLine_argParam:
  assumes "\<not> sublist ''bufferIndices'' ty"
  shows "closedLine (\<lambda>pre. False) ''bufferIndices'' ('', '' @ ty @ ''* customArg'' @ showNat k)"
proof -
  have tail: "everyOccurrence (\<lambda>pre. False) ''bufferIndices'' (''* customArg'' @ showNat k)"
    by (rule everyOccurrence_no_first_char) (auto dest: set_showNat_digit)
  have mid: "everyOccurrence (\<lambda>pre. False) ''bufferIndices'' (ty @ ''* customArg'' @ showNat k)"
  proof (rule everyOccurrence_append_opens)
    show "everyOccurrence (\<lambda>pre. False) ''bufferIndices'' ty"
      using assms by (rule everyOccurrence_absent)
    show "everyOccurrence (\<lambda>pre. False) ''bufferIndices'' (''* customArg'' @ showNat k)"
      by (rule tail)
    show "''* customArg'' @ showNat k = [] \<or> hd (''* customArg'' @ showNat k) \<notin> set ''bufferIndices''"
      by simp
  qed simp
  have "everyOccurrence (\<lambda>pre. False) ''bufferIndices'' ('', '' @ ty @ ''* customArg'' @ showNat k)"
  proof (rule everyOccurrence_append_closed)
    show "everyOccurrence (\<lambda>pre. False) ''bufferIndices'' '', ''"
      by (rule everyOccurrence_no_first_char) simp
    show "everyOccurrence (\<lambda>pre. False) ''bufferIndices'' (ty @ ''* customArg'' @ showNat k)"
      by (rule mid)
    show "'', '' = [] \<or> last '', '' \<notin> set ''bufferIndices''" by simp
  qed simp
  moreover have "last ('', '' @ ty @ ''* customArg'' @ showNat k) \<notin> set ''bufferIndices''"
    using last_showNat_digit [of k] showNat_nonempty [of k] by auto
  ultimately show ?thesis by (simp add: closedLine_def)
qed

lemma closedLine_argParams:
  assumes "numArgs \<le> length aTypes" "\<forall>ty \<in> set aTypes. \<not> sublist ''bufferIndices'' ty"
  shows "closedLine (\<lambda>pre. False) ''bufferIndices'' (argParams aTypes numArgs)"
  unfolding argParams_def
proof (rule closedLine_concat_map)
  fix i assume "i \<in> set [0..<numArgs]"
  then have "aTypes ! i \<in> set aTypes" using assms(1) by simp
  with assms(2) have "\<not> sublist ''bufferIndices'' (aTypes ! i)" by blast
  then show "closedLine (\<lambda>pre. False) ''bufferIndices''
      ('', '' @ aTypes ! i @ ''* customArg'' @ showNat (i + 1))"
    by (rule closedLine_argParam)
qed simp_all

lemma opens_append:
  "a = [] \<or> hd a \<notin> S \<Longrightarrow> b = [] \<or> hd b \<notin> S \<Longrightarrow> a @ b = [] \<or> hd (a @ b) \<notin> S"
  by (cases a) auto

lemma opens_concat_map:
  "(\<And>x. x \<in> set xs \<Longrightarrow> f x = [] \<or> hd (f x) \<notin> S) \<Longrightarrow>
   concat (map f xs) = [] \<or> hd (concat (map f xs)) \<notin> S"
proof (induction xs)
  case Nil
  show ?case by simp
next
  case (Cons x xs)
  have "f x = [] \<or> hd (f x) \<notin> S" using Cons.prems by simp
  moreover have "concat (map f xs) = [] \<or> hd (concat (map f xs)) \<notin> S"
    using Cons.prems by (intro Cons.IH) simp
  ultimately have "f x @ concat (map f xs) = [] \<or> hd (f x @ concat (map f xs)) \<notin> S"
    by (rule opens_append)
  then show ?case by simp
qed

lemma signature_clean:
  assumes "length (arguments s) \<le> length (argTypes s)"
    and "\<forall>ty \<in> set (argTypes s). \<not> sublist ''bufferIndices'' ty"
  shows "\<not> sublist ''bufferIndices'' (kernelSignature s n)"
proof -
  let ?S = "set ''bufferIndices''"
  let ?ip = "indexParams (atomIndices s) n"
  let ?ap = "argParams (argTypes s) (length (arguments s))"
  let ?rest = "?ip @ ?ap @ '') {\<newline>''"
  have r1: "closedLine (\<lambda>pre. False) ''bufferIndices'' ?ip"
    by (rule closedLine_indexParams) simp
  have r2: "closedLine (\<lambda>pre. False) ''bufferIndices'' ?ap"
    using assms by (rule closedLine_argParams)
  have r3: "closedLine (\<lambda>pre. False) ''bufferIndices'' '') {\<newline>''"
    by (rule closedLine_no_b) simp_all
  have "closedLine (\<lambda>pre. False) ''bufferIndices'' ?rest"
    by (intro r1 r2 r3 closedLine_append) simp_all
  then have rest: "everyOccurrence (\<lambda>pre. False) ''bufferIndices'' ?rest"
    by (simp add: closedLine_def)
  have o1: "?ip = [] \<or> hd ?ip \<notin> ?S"
    unfolding indexParams_def
    by (intro opens_concat_map) (simp add: hd_indexParam)
  have o2: "?ap = [] \<or> hd ?ap \<notin> ?S"
    unfolding argParams_def
    by (intro opens_concat_map) simp
  have o3: "'') {\<newline>'' = [] \<or> hd '') {\<newline>'' \<notin> ?S" by simp
  have opens: "?rest = [] \<or> hd ?rest \<notin> ?S"
    by (intro opens_append o1 o2 o3)
  have head: "everyOccurrence (\<lambda>pre. False) ''bufferIndices'' signatureHead"
    using lit_head by (rule everyOccurrence_absent)
  have "everyOccurrence (\<lambda>pre. False) ''bufferIndices'' (signatureHead @ ?rest)"
    using head rest _ opens by (rule everyOccurrence_append_opens) 
  then show ?thesis
    by (simp add: everyOccurrence_False_iff kernelSignature_def)
qed

lemma sublist_in_append_right: "sublist xs ys \<Longrightarrow> sublist xs (ps @ ys)"
  by (metis append_assoc sublist_def)

lemma sublist_in_append_left: "sublist xs ys \<Longrightarrow> sublist xs (ys @ ss)"
  by (metis append_assoc sublist_def)

lemma sublist_in_concat_map:
  assumes "x \<in> set xs" "sublist t (f x)"
  shows "sublist t (concat (map f xs))"
proof -
  from assms(1) obtain ys zs where "xs = ys @ x # zs" by (auto simp: in_set_conv_decomp)
  then have "concat (map f xs) = concat (map f ys) @ f x @ concat (map f zs)" by simp
  with assms(2) show ?thesis
    by (simp add: sublist_in_append_right sublist_in_append_left)
qed

text \<open>
  The text unpacked for the index block \<open>k\<close> of a term holds, after the read of
  \<^verbatim>\<open>atomIndices<term>_<k>\<close>, the line that reads \<^verbatim>\<open>bufferIndices<term>[index]\<close>.
\<close>

lemma sublist_unpackBlocks:
  "k < length blocks \<Longrightarrow>
   sublist (''atomIndices'' @ showNat forceIndex @ ''_'' @ showNat (i + k) @ ''[index];\<newline>''
            @ ''    '' @ indexTypeOf (indexWidthOf (blocks ! k)) @ '' buffers = bufferIndices''
            @ showNat forceIndex @ ''[index];\<newline>'')
     (unpackBlocks forceIndex blocks i startAtom)"
proof (induction blocks arbitrary: k i startAtom)
  case Nil
  then show ?case by simp
next
  case (Cons blk blks k i startAtom)
  show ?case
  proof (cases k)
    case 0
    let ?frag = "''atomIndices'' @ showNat forceIndex @ ''_'' @ showNat i @ ''[index];\<newline>''
            @ ''    '' @ indexTypeOf (indexWidthOf blk) @ '' buffers = bufferIndices''
            @ showNat forceIndex @ ''[index];\<newline>''"
    have "unpackBlocks forceIndex (blk # blks) i startAtom =
        (''    '' @ indexTypeOf (indexWidthOf blk) @ '' atoms'' @ showNat i @ '' = '')
        @ ?frag
        @ (concat (map (unpackLane i startAtom
                       (if indexWidthOf blk = 1 then suffix1 else suffix4))
                  [0..<indexWidthOf blk])
           @ unpackBlocks forceIndex blks (i + 1) (startAtom + indexWidthOf blk))"
      by (simp add: Let_def)
    then have "sublist ?frag (unpackBlocks forceIndex (blk # blks) i startAtom)"
      by (simp only: sublist_appendI)
    with 0 show ?thesis by simp
  next
    case (Suc k')
    with Cons.prems have "k' < length blks" by simp
    then have "sublist (''atomIndices'' @ showNat forceIndex @ ''_'' @ showNat ((i + 1) + k') @ ''[index];\<newline>''
            @ ''    '' @ indexTypeOf (indexWidthOf (blks ! k')) @ '' buffers = bufferIndices''
            @ showNat forceIndex @ ''[index];\<newline>'')
        (unpackBlocks forceIndex blks (i + 1) (startAtom + indexWidthOf blk))"
      by (rule Cons.IH)
    then have "sublist (''atomIndices'' @ showNat forceIndex @ ''_'' @ showNat ((i + 1) + k') @ ''[index];\<newline>''
            @ ''    '' @ indexTypeOf (indexWidthOf (blks ! k')) @ '' buffers = bufferIndices''
            @ showNat forceIndex @ ''[index];\<newline>'')
        ((''    '' @ indexTypeOf (indexWidthOf blk) @ '' atoms'' @ showNat i @ '' = atomIndices''
           @ showNat forceIndex @ ''_'' @ showNat i @ ''[index];\<newline>''
          @ ''    '' @ indexTypeOf (indexWidthOf blk) @ '' buffers = bufferIndices''
           @ showNat forceIndex @ ''[index];\<newline>''
          @ concat (map (unpackLane i startAtom
                       (if indexWidthOf blk = 1 then suffix1 else suffix4))
                  [0..<indexWidthOf blk]))
         @ unpackBlocks forceIndex blks (i + 1) (startAtom + indexWidthOf blk))"
      by (rule sublist_in_append_right)
    moreover have "(''    '' @ indexTypeOf (indexWidthOf blk) @ '' atoms'' @ showNat i @ '' = atomIndices''
           @ showNat forceIndex @ ''_'' @ showNat i @ ''[index];\<newline>''
          @ ''    '' @ indexTypeOf (indexWidthOf blk) @ '' buffers = bufferIndices''
           @ showNat forceIndex @ ''[index];\<newline>''
          @ concat (map (unpackLane i startAtom
                       (if indexWidthOf blk = 1 then suffix1 else suffix4))
                  [0..<indexWidthOf blk]))
         @ unpackBlocks forceIndex blks (i + 1) (startAtom + indexWidthOf blk)
        = unpackBlocks forceIndex (blk # blks) i startAtom"
      by (simp add: Let_def)
    moreover have "(i + 1) + k' = i + k" "blks ! k' = (blk # blks) ! k"
      using Suc by simp_all
    ultimately show ?thesis by (simp only:)
  qed
qed

lemma sublist_termText:
  assumes "i < length (atomIndices s ! f)"
  shows "sublist (''atomIndices'' @ showNat f @ ''_'' @ showNat i @ ''[index];\<newline>''
            @ ''    '' @ indexTypeOf (indexWidthOf (atomIndices s ! f ! i)) @ '' buffers = bufferIndices''
            @ showNat f @ ''[index];\<newline>'')
     (termText s f)"
proof -
  have "sublist (''atomIndices'' @ showNat f @ ''_'' @ showNat (0 + i) @ ''[index];\<newline>''
            @ ''    '' @ indexTypeOf (indexWidthOf (atomIndices s ! f ! i)) @ '' buffers = bufferIndices''
            @ showNat f @ ''[index];\<newline>'')
     (unpackBlocks f (atomIndices s ! f) 0 0)"
    using assms by (rule sublist_unpackBlocks)
  then have "sublist (''atomIndices'' @ showNat f @ ''_'' @ showNat i @ ''[index];\<newline>''
            @ ''    '' @ indexTypeOf (indexWidthOf (atomIndices s ! f ! i)) @ '' buffers = bufferIndices''
            @ showNat f @ ''[index];\<newline>'')
     (unpackBlocks f (atomIndices s ! f) 0 0)"
    by (simp only: add_0)
  then show ?thesis
    unfolding termText_def forceSourceText_def
    by (intro sublist_in_append_right sublist_in_append_left)
qed

lemma initialize_source:
  assumes "forceAtoms s \<noteq> []" and "initialize context elemSize s = Inr s'"
  shows "\<exists>s2 source module k.
           kernelSource (length (forceAtoms s))
             (s\<lparr>atomIndices := buildAtomIndices elemSize (forceAtoms s) (atomIndices s)\<rparr>)
             = Inr (s2, source)
           \<and> createModule context source
               [(''PADDED_NUM_ATOMS'', intToString (getPaddedNumAtoms context))] = Some module
           \<and> getKernel context module ''computeBondedForces'' = Some k
           \<and> s' = s2\<lparr>kernel := Some k, forceAtoms := [], forceSource := []\<rparr>"
  using assms
  by (auto simp: initialize_def Let_def split: if_splits option.splits sum.splits prod.splits)

lemma kernelSignature_cong:
  "atomIndices a = atomIndices b \<Longrightarrow> argTypes a = argTypes b \<Longrightarrow> arguments a = arguments b \<Longrightarrow>
   kernelSignature a n = kernelSignature b n"
  by (simp add: kernelSignature_def)

text \<open>
  The synthesizer splices two kinds of caller text into the kernel: the type name of every
  extra argument goes into the parameter list, and the snippet of every term into the
  body. Either can bring a declaration of the name with it. With the type name
  \<^verbatim>\<open>const unsigned int* bufferIndices0, float\<close> the build succeeds and the parameter list
  declares \<^verbatim>\<open>bufferIndices0\<close>; with the snippet \<^verbatim>\<open>unsigned int* bufferIndices0 = 0;\<close> the
  build succeeds and the body declares a local of that name. So a statement that the
  parameter list and the body never declare the name, for every build, does not hold.
\<close>

theorem bufferIndices_declared_by_caller_text:
  "initialize \<lparr>getPaddedNumAtoms = 32, createModule = (\<lambda>src defs. Some 1),
                getKernel = (\<lambda>module name. Some 2)\<rparr> 4
     (fst (addArgument 9 ''const unsigned int* bufferIndices0, float''
            (addInteraction [[0, 1]] ''E'' 0 newCudaBondedUtilities)))
   = Inr (projr (initialize \<lparr>getPaddedNumAtoms = 32, createModule = (\<lambda>src defs. Some 1),
                getKernel = (\<lambda>module name. Some 2)\<rparr> 4
     (fst (addArgument 9 ''const unsigned int* bufferIndices0, float''
            (addInteraction [[0, 1]] ''E'' 0 newCudaBondedUtilities)))))
   \<and> sublist '', const unsigned int* bufferIndices0, float* customArg1''
        (kernelSignature
           (projr (initialize \<lparr>getPaddedNumAtoms = 32, createModule = (\<lambda>src defs. Some 1),
                getKernel = (\<lambda>module name. Some 2)\<rparr> 4
             (fst (addArgument 9 ''const unsigned int* bufferIndices0, float''
                    (addInteraction [[0, 1]] ''E'' 0 newCudaBondedUtilities))))) 1)
   \<and> initialize \<lparr>getPaddedNumAtoms = 32, createModule = (\<lambda>src defs. Some 1),
                getKernel = (\<lambda>module name. Some 2)\<rparr> 4
        (addInteraction [[0, 1]] ''unsigned int* bufferIndices0 = 0;'' 0 newCudaBondedUtilities)
      = Inr (projr (initialize \<lparr>getPaddedNumAtoms = 32, createModule = (\<lambda>src defs. Some 1),
                getKernel = (\<lambda>module name. Some 2)\<rparr> 4
        (addInteraction [[0, 1]] ''unsigned int* bufferIndices0 = 0;'' 0 newCudaBondedUtilities)))
   \<and> sublist ''    real4 pos1 = posq[atom1];\<newline>unsigned int* bufferIndices0 = 0;\<newline>''
        (snd (projr (kernelSource 1
           ((addInteraction [[0, 1]] ''unsigned int* bufferIndices0 = 0;'' 0 newCudaBondedUtilities)
              \<lparr>atomIndices := buildAtomIndices 4 [[[0, 1]]] []\<rparr>))))"
proof (intro conjI)
  let ?c = "\<lparr>getPaddedNumAtoms = 32, createModule = (\<lambda>src defs. Some 1),
             getKernel = (\<lambda>module name. Some 2)\<rparr>"
  let ?s = "fst (addArgument 9 ''const unsigned int* bufferIndices0, float''
            (addInteraction [[0, 1]] ''E'' 0 newCudaBondedUtilities))"
  let ?s' = "?s\<lparr>atomIndices := buildAtomIndices 4 (forceAtoms ?s) (atomIndices ?s),
                  maxBonds := fold (\<lambda>f m. max m (length (forceAtoms ?s ! f)))
                                [0..<length (forceAtoms ?s)] (maxBonds ?s),
                  kernel := Some 2, forceAtoms := [], forceSource := []\<rparr>"
  have fa: "forceAtoms ?s = [[[0, 1]]]" and ai: "atomIndices ?s = []"
    and at: "argTypes ?s = [''const unsigned int* bufferIndices0, float'']"
    and ar: "arguments ?s = [9]"
    by (simp_all add: addArgument_eq addInteraction_def newCudaBondedUtilities_def)
  have init: "initialize ?c 4 ?s = Inr ?s'"
    by (rule initialize_succeeds [where module = 1]) (simp_all add: fa ai)
  show "initialize ?c 4 ?s = Inr (projr (initialize ?c 4 ?s))"
    unfolding init by simp
  have ap: "argParams (argTypes ?s') (length (arguments ?s')) =
      '', const unsigned int* bufferIndices0, float* customArg1''"
    by (simp add: at ar argParams_def showNat_small digitChar_def)
  have "sublist (argParams (argTypes ?s') (length (arguments ?s'))) (kernelSignature ?s' 1)"
    unfolding kernelSignature_def
    by (intro sublist_in_append_right sublist_append_rightI)
  then show "sublist '', const unsigned int* bufferIndices0, float* customArg1''
        (kernelSignature (projr (initialize ?c 4 ?s)) 1)"
    unfolding init ap by simp
next
  let ?c = "\<lparr>getPaddedNumAtoms = 32, createModule = (\<lambda>src defs. Some 1),
             getKernel = (\<lambda>module name. Some 2)\<rparr>"
  let ?s = "addInteraction [[0, 1]] ''unsigned int* bufferIndices0 = 0;'' 0 newCudaBondedUtilities"
  let ?s' = "?s\<lparr>atomIndices := buildAtomIndices 4 (forceAtoms ?s) (atomIndices ?s),
                  maxBonds := fold (\<lambda>f m. max m (length (forceAtoms ?s ! f)))
                                [0..<length (forceAtoms ?s)] (maxBonds ?s),
                  kernel := Some 2, forceAtoms := [], forceSource := []\<rparr>"
  have fa: "forceAtoms ?s = [[[0, 1]]]" and ai: "atomIndices ?s = []"
    by (simp_all add: addInteraction_def newCudaBondedUtilities_def)
  have init: "initialize ?c 4 ?s = Inr ?s'"
    by (rule initialize_succeeds [where module = 1]) (simp_all add: fa ai)
  show "initialize ?c 4 ?s = Inr (projr (initialize ?c 4 ?s))"
    unfolding init by simp
next
  let ?s = "addInteraction [[0, 1]] ''unsigned int* bufferIndices0 = 0;'' 0 newCudaBondedUtilities"
  let ?s1 = "?s\<lparr>atomIndices := buildAtomIndices 4 [[[0, 1]]] []\<rparr>"
  have blocks: "atomIndices ?s1 ! 0 =
      [upload (CudaArray_create 4 4 ''bondedIndices'') (fillIndexVec [[0, 1]] 0 4)]"
    by (simp add: buildAtomIndices_nth resize_def packTerm_eq)
  have fs: "forceSource ?s1 ! 0 = ''unsigned int* bufferIndices0 = 0;''"
    by (simp add: addInteraction_def newCudaBondedUtilities_def)
  have ok: "\<not> (\<exists>f < 1. list_ex (\<lambda>blk. 4 < indexWidthOf blk) (atomIndices ?s1 ! f))"
    unfolding less_Suc0 One_nat_def using blocks by (simp add: indexWidthOf_upload_create)
  have src: "snd (projr (kernelSource 1 ?s1)) =
      concat (prefixCode ?s1) @ kernelSignature ?s1 1 @ ''real energy = 0;\<newline>''
      @ concat (map (termText ?s1) [0..<1]) @ kernelEpilogue"
    using ok by (simp only: kernelSource_eq if_False sum.sel snd_conv)
  have tt: "termText ?s1 0 =
      (''if ((groups&'' @ showInt (groupMask (forceGroup ?s1 ! 0)) @ '') != 0)\<newline>''
       @ ''for (unsigned int index = blockIdx.x*blockDim.x+threadIdx.x; index < ''
       @ showNat (length (forceAtoms ?s1 ! 0)) @ ''; index += blockDim.x*gridDim.x) {\<newline>''
       @ ''    unsigned int atoms0 = atomIndices0_0[index];\<newline>''
       @ ''    unsigned int buffers = bufferIndices0[index];\<newline>''
       @ ''    unsigned int atom1 = atoms0;\<newline>'')
      @ ''    real4 pos1 = posq[atom1];\<newline>unsigned int* bufferIndices0 = 0;\<newline>''
      @ (concat (map scatterAtom [0..<length (forceAtoms ?s1 ! 0 ! 0)]) @ ''}\<newline>'')"
    unfolding termText_def forceSourceText_def blocks fs
    by (simp add: indexWidthOf_upload_create indexTypeOf_def suffix1_def
          unpackLane_def showNat_small digitChar_def)
  have "sublist ''    real4 pos1 = posq[atom1];\<newline>unsigned int* bufferIndices0 = 0;\<newline>''
          (termText ?s1 0)"
    unfolding tt by (rule sublist_appendI)
  then have "sublist ''    real4 pos1 = posq[atom1];\<newline>unsigned int* bufferIndices0 = 0;\<newline>''
          (concat (map (termText ?s1) [0..<1]))"
    by (intro sublist_in_concat_map [of 0]) simp_all
  then show "sublist ''    real4 pos1 = posq[atom1];\<newline>unsigned int* bufferIndices0 = 0;\<newline>''
        (snd (projr (kernelSource 1 ?s1)))"
    unfolding src by (intro sublist_in_append_right sublist_in_append_left)
qed

text \<open>
  C7, with the proviso that the counterexample above forces. Let \<^verbatim>\<open>initialize\<close> succeed on
  an object with at least one term, whose argument type names and snippets do not
  themselves contain \<^verbatim>\<open>bufferIndices\<close>. The source handed to the compiler is the prefix
  fragments, then the signature, then the body. The signature, which is the whole
  parameter list, does not contain the name. For every term \<open>f\<close> and every index block
  \<open>i\<close> of it the body contains, right after the read of \<^verbatim>\<open>atomIndices<f>_<i>[index]\<close>,
  the line that reads \<^verbatim>\<open>bufferIndices<f>[index]\<close>. And wherever the body contains the
  name, it stands directly after \<^verbatim>\<open> buffers = \<close>, as the initializer of the local
  \<^verbatim>\<open>buffers\<close>: no line of the body declares it. So only a prefix fragment can declare
  the name.
\<close>

theorem bufferIndices_read_but_never_declared:
  assumes terms: "forceAtoms s \<noteq> []"
    and init: "initialize context elemSize s = Inr s'"
    and args: "length (argTypes s) = length (arguments s)"
    and types: "\<forall>ty \<in> set (argTypes s). \<not> sublist ''bufferIndices'' ty"
    and snippets: "\<forall>f < length (forceAtoms s). \<not> sublist ''bufferIndices'' (forceSource s ! f)"
  shows "\<exists>source body module.
           createModule context source
             [(''PADDED_NUM_ATOMS'', intToString (getPaddedNumAtoms context))] = Some module
         \<and> source = concat (prefixCode s) @ kernelSignature s' (length (forceAtoms s)) @ body
         \<and> \<not> sublist ''bufferIndices'' (kernelSignature s' (length (forceAtoms s)))
         \<and> (\<forall>f < length (forceAtoms s). \<forall>i < length (atomIndices s' ! f).
               sublist (''atomIndices'' @ showNat f @ ''_'' @ showNat i @ ''[index];\<newline>''
                        @ ''    '' @ indexTypeOf (indexWidthOf (atomIndices s' ! f ! i))
                        @ '' buffers = bufferIndices'' @ showNat f @ ''[index];\<newline>'')
                 body)
         \<and> (\<forall>pre post. body = pre @ ''bufferIndices'' @ post \<longrightarrow> suffix '' buffers = '' pre)"
proof -
  let ?n = "length (forceAtoms s)"
  let ?s1 = "s\<lparr>atomIndices := buildAtomIndices elemSize (forceAtoms s) (atomIndices s)\<rparr>"
  let ?body = "''real energy = 0;\<newline>'' @ concat (map (termText ?s1) [0..<?n]) @ kernelEpilogue"
  from initialize_source [OF terms init] obtain s2 source module k where
    ks: "kernelSource ?n ?s1 = Inr (s2, source)"
    and cm: "createModule context source
               [(''PADDED_NUM_ATOMS'', intToString (getPaddedNumAtoms context))] = Some module"
    and s': "s' = s2\<lparr>kernel := Some k, forceAtoms := [], forceSource := []\<rparr>"
    by blast
  note parts = kernelSource_Inr [OF ks]
  have ai: "atomIndices s' = atomIndices ?s1" and at: "argTypes s' = argTypes ?s1"
    and ar: "arguments s' = arguments ?s1"
    unfolding s' parts(1) by simp_all
  have sig: "kernelSignature s' ?n = kernelSignature ?s1 ?n"
    using ai at ar by (rule kernelSignature_cong)
  have src: "source = concat (prefixCode s) @ kernelSignature s' ?n @ ?body"
    unfolding sig parts(2) by simp
  have clean: "\<not> sublist ''bufferIndices'' (kernelSignature s' ?n)"
    unfolding sig by (rule signature_clean) (use args types in simp_all)
  have reads: "sublist (''atomIndices'' @ showNat f @ ''_'' @ showNat i @ ''[index];\<newline>''
                        @ ''    '' @ indexTypeOf (indexWidthOf (atomIndices s' ! f ! i))
                        @ '' buffers = bufferIndices'' @ showNat f @ ''[index];\<newline>'')
                 ?body"
    if "f < ?n" "i < length (atomIndices s' ! f)" for f i
  proof -
    have "sublist (''atomIndices'' @ showNat f @ ''_'' @ showNat i @ ''[index];\<newline>''
                        @ ''    '' @ indexTypeOf (indexWidthOf (atomIndices ?s1 ! f ! i))
                        @ '' buffers = bufferIndices'' @ showNat f @ ''[index];\<newline>'')
             (termText ?s1 f)"
      using that(2) unfolding ai by (rule sublist_termText)
    moreover have "f \<in> set [0..<?n]" using that(1) by simp
    ultimately have "sublist (''atomIndices'' @ showNat f @ ''_'' @ showNat i @ ''[index];\<newline>''
                        @ ''    '' @ indexTypeOf (indexWidthOf (atomIndices ?s1 ! f ! i))
                        @ '' buffers = bufferIndices'' @ showNat f @ ''[index];\<newline>'')
             (concat (map (termText ?s1) [0..<?n]))"
      by (rule sublist_in_concat_map [rotated])
    then show ?thesis
      unfolding ai by (intro sublist_in_append_right sublist_in_append_left)
  qed
  have "everyOccurrence (suffix '' buffers = '') ''bufferIndices'' ?body"
    by (rule everyOccurrence_kernel_body) (use parts(3) snippets in simp_all)
  then have occ: "\<forall>pre post. ?body = pre @ ''bufferIndices'' @ post \<longrightarrow> suffix '' buffers = '' pre"
    unfolding everyOccurrence_def .
  from cm src clean reads occ show ?thesis by blast
qed

theorem bufferIndices_read_but_never_declared_witness:
  "\<exists>s' source body.
      initialize \<lparr>getPaddedNumAtoms = 32, createModule = (\<lambda>src defs. Some 1),
                   getKernel = (\<lambda>module name. Some 2)\<rparr> 4
        (fst (addArgument 9 ''float'' (addInteraction [[0, 1]] ''E'' 0 newCudaBondedUtilities)))
        = Inr s'
    \<and> source = kernelSignature s' 1 @ body
    \<and> \<not> sublist ''bufferIndices'' (kernelSignature s' 1)
    \<and> sublist ''atomIndices0_0[index];\<newline>    unsigned int buffers = bufferIndices0[index];\<newline>'' body
    \<and> (\<forall>pre post. body = pre @ ''bufferIndices'' @ post \<longrightarrow> suffix '' buffers = '' pre)"
proof -
  let ?c = "\<lparr>getPaddedNumAtoms = 32, createModule = (\<lambda>src defs. Some 1),
             getKernel = (\<lambda>module name. Some 2)\<rparr>"
  let ?s = "fst (addArgument 9 ''float'' (addInteraction [[0, 1]] ''E'' 0 newCudaBondedUtilities))"
  have fa: "forceAtoms ?s = [[[0, 1]]]" and ai: "atomIndices ?s = []"
    and fs: "forceSource ?s = [''E'']" and at: "argTypes ?s = [''float'']"
    and ar: "arguments ?s = [9]" and pc: "prefixCode ?s = []"
    by (simp_all add: addArgument_eq addInteraction_def newCudaBondedUtilities_def)
  let ?s' = "?s\<lparr>atomIndices := buildAtomIndices 4 (forceAtoms ?s) (atomIndices ?s),
                  maxBonds := fold (\<lambda>f m. max m (length (forceAtoms ?s ! f)))
                                [0..<length (forceAtoms ?s)] (maxBonds ?s),
                  kernel := Some 2, forceAtoms := [], forceSource := []\<rparr>"
  have init: "initialize ?c 4 ?s = Inr ?s'"
    by (rule initialize_succeeds [where module = 1]) (simp_all add: fa ai)
  have blocks: "atomIndices ?s' ! 0 =
      [upload (CudaArray_create 4 4 ''bondedIndices'') (fillIndexVec [[0, 1]] 0 4)]"
  proof -
    have "atomIndices ?s' ! 0 = buildAtomIndices 4 [[[0, 1]]] [] ! 0" by (simp add: fa ai)
    also have "\<dots> = [upload (CudaArray_create 4 4 ''bondedIndices'') (fillIndexVec [[0, 1]] 0 4)]"
      by (simp add: buildAtomIndices_nth resize_def packTerm_eq)
    finally show ?thesis .
  qed
  have hyps: "forceAtoms ?s \<noteq> []" "length (argTypes ?s) = length (arguments ?s)"
    "\<forall>ty \<in> set (argTypes ?s). \<not> sublist ''bufferIndices'' ty"
    "\<forall>f < length (forceAtoms ?s). \<not> sublist ''bufferIndices'' (forceSource ?s ! f)"
    by (simp_all add: fa at ar fs sublist_Cons_right)
  from bufferIndices_read_but_never_declared [OF hyps(1) init hyps(2,3,4)]
  obtain source body where
    src: "source = concat (prefixCode ?s) @ kernelSignature ?s' (length (forceAtoms ?s)) @ body"
    and clean: "\<not> sublist ''bufferIndices'' (kernelSignature ?s' (length (forceAtoms ?s)))"
    and reads: "\<forall>f < length (forceAtoms ?s). \<forall>i < length (atomIndices ?s' ! f).
               sublist (''atomIndices'' @ showNat f @ ''_'' @ showNat i @ ''[index];\<newline>''
                        @ ''    '' @ indexTypeOf (indexWidthOf (atomIndices ?s' ! f ! i))
                        @ '' buffers = bufferIndices'' @ showNat f @ ''[index];\<newline>'')
                 body"
    and occ: "\<forall>pre post. body = pre @ ''bufferIndices'' @ post \<longrightarrow> suffix '' buffers = '' pre"
    by blast
  have "0 < length (forceAtoms ?s)" by (simp add: fa)
  moreover have "0 < length (atomIndices ?s' ! 0)" unfolding blocks by simp
  ultimately have "sublist (''atomIndices'' @ showNat 0 @ ''_'' @ showNat 0 @ ''[index];\<newline>''
                        @ ''    '' @ indexTypeOf (indexWidthOf (atomIndices ?s' ! 0 ! 0))
                        @ '' buffers = bufferIndices'' @ showNat 0 @ ''[index];\<newline>'')
                 body"
    using reads by blast
  then have read0: "sublist ''atomIndices0_0[index];\<newline>    unsigned int buffers = bufferIndices0[index];\<newline>'' body"
    unfolding blocks
    by (simp add: indexWidthOf_upload_create indexTypeOf_def showNat_small digitChar_def)
  have one: "length (forceAtoms ?s) = 1" by (simp add: fa)
  have src1: "source = kernelSignature ?s' 1 @ body"
    using src unfolding one pc by simp
  have clean1: "\<not> sublist ''bufferIndices'' (kernelSignature ?s' 1)"
    using clean unfolding one .
  from init src1 clean1 read0 occ show ?thesis by blast
qed


end
